theory Spec2Isabelle
  imports Main "HOL-Library.Word"
begin

unbundle bit_operations_syntax

section \<open>Page allocation of the DDE Linux 2.6 environment\<close>

text \<open>
  A shallow embedding of \<^verbatim>\<open>src/lib/dde_linux26/arch/dde_kit/page_alloc.c\<close>: the page
  cache (a hash table of \<^verbatim>\<open>struct page\<close> pointers), the allocation functions built on
  the DDE kit's memory provider, and \<^verbatim>\<open>alloc_large_system_hash\<close>.

  Conventions of the embedding.
  \<^item> The target is ia32: \<^verbatim>\<open>unsigned long\<close>, \<^verbatim>\<open>unsigned int\<close>, \<^verbatim>\<open>gfp_t\<close> and pointers are
    32-bit words; the null pointer is the word 0. Arithmetic wraps as on the machine;
    a right shift is \<open>drop_bit\<close>, a left shift by a variable count is \<open>shl\<close> below.
  \<^item> A C function that changes global state takes the state and returns the new one.
    A function that can stop the program returns \<open>fault + result\<close>.
  \<^item> The DDE kit (\<^verbatim>\<open>dde_kit_large_malloc\<close>, \<^verbatim>\<open>dde_kit_large_free\<close>) and \<^verbatim>\<open>kmalloc\<close>
    are outside this file. Each call is recorded in a trace, latest call first, and
    what a call returns is a function of the calls made so far. The theorems hold for
    every such function, so for every provider.
  \<^item> Names that start with two underscores in C start with \<open>uu_\<close> here.
  \<^item> Logging (\<^verbatim>\<open>dde_kit_log\<close> with \<^verbatim>\<open>DEBUG_PAGE_ALLOC 0\<close>, \<^verbatim>\<open>printk\<close>) has no effect on
    the state and is left out.
\<close>

subsection \<open>Machine types and constants of the headers\<close>

type_synonym ulong = "32 word"
type_synonym uint = "32 word"
type_synonym gfp_t = "32 word"

abbreviation (input) NULL :: ulong where
  "NULL \<equiv> 0"

text \<open>
  Modelled from the spec: \<^verbatim>\<open>asm/page.h\<close> is not among the sources. The spec's scenarios
  fix the page size at 4096 bytes, so \<^verbatim>\<open>PAGE_SHIFT\<close> is 12; \<^verbatim>\<open>PAGE_SIZE\<close> is
  \<^verbatim>\<open>1UL << PAGE_SHIFT\<close> and \<^verbatim>\<open>PAGE_MASK\<close> is \<^verbatim>\<open>~(PAGE_SIZE-1)\<close>, the mask that clears the
  page-offset bits of an address.
\<close>

definition PAGE_SHIFT :: nat where
  "PAGE_SHIFT = 12"

definition PAGE_SIZE :: ulong where
  "PAGE_SIZE = push_bit PAGE_SHIFT 1"

definition PAGE_MASK :: ulong where
  "PAGE_MASK = NOT (PAGE_SIZE - 1)"

definition DDE_PAGE_CACHE_SHIFT :: nat where
  "DDE_PAGE_CACHE_SHIFT = 10"

definition DDE_PAGE_CACHE_SIZE :: nat where
  "DDE_PAGE_CACHE_SIZE = 2 ^ DDE_PAGE_CACHE_SHIFT"

definition DDE_PAGE_CACHE_MASK :: ulong where
  "DDE_PAGE_CACHE_MASK = of_nat DDE_PAGE_CACHE_SIZE - 1"

text \<open>
  The shift \<^verbatim>\<open>x << n\<close> of a 32-bit \<open>x\<close> by a count \<open>n\<close> that is not a constant. For a
  count below 32 it is the shift of C: the bits shifted out are lost. For a count of 32
  or more C leaves the shift undefined; the shift instruction of ia32 takes the count
  modulo 32, and that is the value here.
\<close>

definition shl :: "ulong \<Rightarrow> ulong \<Rightarrow> ulong" where
  "shl x n = push_bit (unat n mod 32) x"

text \<open>
  The allocation flags of \<^verbatim>\<open>linux/gfp.h\<close>, which is not among the sources and whose
  values the spec does not give: they are parameters of the model.
\<close>

record gfp_h =
  GFP_DMA :: gfp_t
  GFP_ATOMIC :: gfp_t


subsection \<open>State\<close>

text \<open>\<^verbatim>\<open>struct page\<close>: of its fields this file reads and writes \<^verbatim>\<open>virtual\<close> only.\<close>

record page =
  virtual :: ulong

text \<open>
  \<^verbatim>\<open>page_cache_entry\<close>: the \<^verbatim>\<open>hlist_node\<close> of an entry is its position in the list that
  models its bucket, so the record keeps the pointer to the page only.
\<close>

record page_cache_entry =
  page :: ulong

datatype event =
    Large_malloc ulong ulong
  | Large_free ulong
  | Kmalloc ulong

text \<open>
  \<open>Large_malloc size p\<close>: \<^verbatim>\<open>dde_kit_large_malloc(size)\<close> returned \<open>p\<close> (\<open>NULL\<close>: denied).
  \<open>Large_free p\<close>: \<^verbatim>\<open>dde_kit_large_free(p)\<close>. \<open>Kmalloc p\<close>: \<^verbatim>\<open>kmalloc\<close> returned \<open>p\<close>.
\<close>

record dde_kit =
  dde_kit_large_malloc :: "event list \<Rightarrow> ulong \<Rightarrow> ulong"
  kmalloc :: "event list \<Rightarrow> ulong"

text \<open>
  The ways the program stops: \<^verbatim>\<open>dde_kit_assert\<close> on a false condition, \<^verbatim>\<open>panic\<close>, and a
  write through the null pointer that an unchecked \<^verbatim>\<open>kmalloc\<close> returned.
\<close>

datatype fault = Assertion_failed | Panic | Null_dereference

text \<open>
  The state: the trace of calls to the outside, the \<^verbatim>\<open>struct page\<close> objects by address,
  the bytes of memory, and the array \<^verbatim>\<open>dde_linux26_page_cache\<close> of
  \<^verbatim>\<open>DDE_PAGE_CACHE_SIZE\<close> list heads, each bucket a list from \<^verbatim>\<open>first\<close> onwards.
\<close>

record state =
  trace :: "event list"
  pages :: "ulong \<Rightarrow> page"
  mem :: "ulong \<Rightarrow> 8 word"
  dde_linux26_page_cache :: "page_cache_entry list list"

subsection \<open>The page cache\<close>

definition VIRT_TO_PAGEHASH :: "ulong \<Rightarrow> uint" where
  "VIRT_TO_PAGEHASH a = drop_bit PAGE_SHIFT a AND DDE_PAGE_CACHE_MASK"

text \<open>
  Modelled from the spec: \<^verbatim>\<open>linux/list.h\<close> is not among the sources. A bucket is a chain
  of entries; \<^verbatim>\<open>hlist_add_head\<close> puts a node in front of the chain, \<^verbatim>\<open>hlist_del\<close> unlinks
  the node at a position, and \<^verbatim>\<open>hlist_for_each_entry\<close> visits the nodes from the first on.
\<close>

definition hlist_add_head :: "page_cache_entry \<Rightarrow> page_cache_entry list \<Rightarrow> page_cache_entry list" where
  "hlist_add_head n h = n # h"

definition hlist_del :: "nat \<Rightarrow> page_cache_entry list \<Rightarrow> page_cache_entry list" where
  "hlist_del v h = take v h @ drop (Suc v) h"

text \<open>
  \<^verbatim>\<open>dde_linux26_page_cache_add\<close>: the entry is allocated with \<^verbatim>\<open>kmalloc\<close>, whose result
  the code does not test before it writes \<^verbatim>\<open>e->page\<close>.
\<close>

definition dde_linux26_page_cache_add :: "dde_kit \<Rightarrow> ulong \<Rightarrow> state \<Rightarrow> fault + state" where
  "dde_linux26_page_cache_add K p s =
     (let hashval = VIRT_TO_PAGEHASH (virtual (pages s p));
          e = kmalloc K (trace s)
      in if e = NULL then Inl Null_dereference
         else Inr (s\<lparr>trace := Kmalloc e # trace s,
                     dde_linux26_page_cache :=
                       (dde_linux26_page_cache s)
                         [unat hashval :=
                            hlist_add_head \<lparr>page = p\<rparr> (dde_linux26_page_cache s ! unat hashval)]\<rparr>))"

text \<open>
  The loop of \<^verbatim>\<open>dde_linux26_page_cache_remove\<close>:
  \<^verbatim>\<open>
  hlist_for_each_entry(e, hn, h, list) {
      if ((unsigned long)e->page->virtual == ((unsigned long)p->virtual & PAGE_MASK))
          v = hn;
          break;
  }
  \<close>
  The \<^verbatim>\<open>if\<close> has no braces, so \<^verbatim>\<open>break\<close> is not part of it: the body runs for the first
  node of the bucket and leaves the loop. \<open>remove_scan\<close> gives the position of the node
  \<^verbatim>\<open>v\<close>, if any.
\<close>

fun remove_scan :: "(ulong \<Rightarrow> page) \<Rightarrow> ulong \<Rightarrow> page_cache_entry list \<Rightarrow> nat option" where
  "remove_scan pg key [] = None"
| "remove_scan pg key (e # es) = (if virtual (pg (page e)) = key then Some 0 else None)"

definition dde_linux26_page_cache_remove :: "ulong \<Rightarrow> state \<Rightarrow> state" where
  "dde_linux26_page_cache_remove p s =
     (let hashval = VIRT_TO_PAGEHASH (virtual (pages s p));
          h = dde_linux26_page_cache s ! unat hashval
      in case remove_scan (pages s) (virtual (pages s p) AND PAGE_MASK) h of
           None \<Rightarrow> s
         | Some v \<Rightarrow>
             s\<lparr>dde_linux26_page_cache :=
                 (dde_linux26_page_cache s)[unat hashval := hlist_del v h]\<rparr>)"

text \<open>The loop of \<^verbatim>\<open>dde_linux26_page_lookup\<close> returns the page of the first node that matches.\<close>

fun lookup_scan :: "(ulong \<Rightarrow> page) \<Rightarrow> ulong \<Rightarrow> page_cache_entry list \<Rightarrow> ulong" where
  "lookup_scan pg key [] = NULL"
| "lookup_scan pg key (e # es) =
     (if virtual (pg (page e)) = key then page e else lookup_scan pg key es)"

definition dde_linux26_page_lookup :: "ulong \<Rightarrow> state \<Rightarrow> ulong" where
  "dde_linux26_page_lookup va s =
     (let hashval = VIRT_TO_PAGEHASH va;
          h = dde_linux26_page_cache s ! unat hashval
      in lookup_scan (pages s) (va AND PAGE_MASK) h)"

definition dde_linux26_page_cache_init :: "state \<Rightarrow> state" where
  "dde_linux26_page_cache_init s =
     s\<lparr>dde_linux26_page_cache :=
         fold (\<lambda>i c. c[i := []]) [0..<DDE_PAGE_CACHE_SIZE] (dde_linux26_page_cache s)\<rparr>"

subsection \<open>Allocation and release\<close>

definition uu_get_free_pages :: "gfp_h \<Rightarrow> dde_kit \<Rightarrow> gfp_t \<Rightarrow> uint \<Rightarrow> state \<Rightarrow> fault + ulong \<times> state" where
  "uu_get_free_pages G K gfp_mask order s =
     (if gfp_mask = GFP_DMA G then Inl Assertion_failed
      else let size = shl PAGE_SIZE order;
               p = dde_kit_large_malloc K (trace s) size
           in Inr (p, s\<lparr>trace := Large_malloc size p # trace s\<rparr>))"

text \<open>
  \<^verbatim>\<open>__alloc_pages\<close> (its \<^verbatim>\<open>zonelist\<close> argument is not used). Neither the result of
  \<^verbatim>\<open>kmalloc\<close> nor the result of \<^verbatim>\<open>__get_free_pages\<close> is tested: the write to
  \<^verbatim>\<open>ret->virtual\<close> goes through a null \<^verbatim>\<open>ret\<close>, and a null address is stored and
  registered like any other.
\<close>

definition uu_alloc_pages :: "gfp_h \<Rightarrow> dde_kit \<Rightarrow> gfp_t \<Rightarrow> uint \<Rightarrow> state \<Rightarrow> fault + ulong \<times> state" where
  "uu_alloc_pages G K gfp_mask order s =
     (let ret = kmalloc K (trace s);
          s1 = s\<lparr>trace := Kmalloc ret # trace s\<rparr>
      in case uu_get_free_pages G K gfp_mask order s1 of
           Inl f \<Rightarrow> Inl f
         | Inr (va, s2) \<Rightarrow>
             if ret = NULL then Inl Null_dereference
             else (case dde_linux26_page_cache_add K ret
                          (s2\<lparr>pages := (pages s2)(ret := (pages s2 ret)\<lparr>virtual := va\<rparr>)\<rparr>) of
                     Inl f \<Rightarrow> Inl f
                   | Inr s3 \<Rightarrow> Inr (ret, s3)))"

text \<open>
  Modelled from the spec: \<^verbatim>\<open>memset\<close> (\<^verbatim>\<open>linux/string.h\<close>) is not among the sources. It
  overwrites the \<open>n\<close> bytes from \<open>p\<close> on with \<open>c\<close> and leaves every other byte.
\<close>

definition memset :: "(ulong \<Rightarrow> 8 word) \<Rightarrow> ulong \<Rightarrow> 8 word \<Rightarrow> ulong \<Rightarrow> ulong \<Rightarrow> 8 word" where
  "memset m p c n = (\<lambda>a. if a - p < n then c else m a)"

definition get_zeroed_page :: "gfp_h \<Rightarrow> dde_kit \<Rightarrow> gfp_t \<Rightarrow> state \<Rightarrow> fault + ulong \<times> state" where
  "get_zeroed_page G K gfp_mask s =
     (case uu_get_free_pages G K gfp_mask 0 s of
        Inl f \<Rightarrow> Inl f
      | Inr (p, s1) \<Rightarrow>
          Inr (p, if p \<noteq> NULL then s1\<lparr>mem := memset (mem s1) p 0 PAGE_SIZE\<rparr> else s1))"

definition free_pages :: "ulong \<Rightarrow> uint \<Rightarrow> state \<Rightarrow> state" where
  "free_pages addr order s = s\<lparr>trace := Large_free addr # trace s\<rparr>"

definition uu_free_pages :: "ulong \<Rightarrow> uint \<Rightarrow> state \<Rightarrow> state" where
  "uu_free_pages pg order s =
     dde_linux26_page_cache_remove pg (free_pages (virtual (pages s pg)) order s)"

subsection \<open>The hash table helper\<close>

text \<open>
  Modelled from the spec: \<^verbatim>\<open>ilog2\<close> (\<^verbatim>\<open>linux/log2.h\<close>) is not among the sources. The table
  is sized for a power of two of entries; \<open>ilog2\<close> is the logarithm to base 2 rounded
  down, the position of the highest bit set.
\<close>

fun ilog2_nat :: "nat \<Rightarrow> nat" where
  "ilog2_nat n = (if n < 2 then 0 else Suc (ilog2_nat (n div 2)))"

declare ilog2_nat.simps [simp del]

definition ilog2 :: "ulong \<Rightarrow> ulong" where
  "ilog2 n = of_nat (ilog2_nat (unat n))"

text \<open>
  The inner loop
  \<^verbatim>\<open>for (order = 0; ((1UL << order) << PAGE_SHIFT) < size; order++);\<close>
  has an empty body. For a \<open>sz\<close> above \<open>2 ^ 31\<close> no order ends it (the shifted value
  is \<open>2 ^ 31\<close> at most), so the loop is a partial function: \<open>None\<close> stands for not
  returning.
\<close>

partial_function (option) order_loop :: "ulong \<Rightarrow> ulong \<Rightarrow> ulong option" where
  "order_loop sz order =
     (if push_bit PAGE_SHIFT (shl 1 order) < sz
      then order_loop sz (order + 1)
      else Some order)"

text \<open>
  The outer loop
  \<^verbatim>\<open>
  do {
      unsigned long order;
      for (order = 0; ((1UL << order) << PAGE_SHIFT) < size; order++);
          table = (void*) __get_free_pages(GFP_ATOMIC, order);
  } while (!table && size > PAGE_SIZE && --log2qty);
  \<close>
  \<^verbatim>\<open>size\<close> is assigned once, before the loop, and the loop does not change it. The
  condition decrements \<^verbatim>\<open>log2qty\<close> only when the two tests before it hold. The result
  is the table together with the last value of \<^verbatim>\<open>log2qty\<close> and the state.
\<close>

function alloc_loop :: "gfp_h \<Rightarrow> dde_kit \<Rightarrow> ulong \<Rightarrow> ulong \<Rightarrow> state \<Rightarrow> (fault + ulong \<times> ulong \<times> state) option" where
  "alloc_loop G K sz log2qty s =
     (case order_loop sz 0 of
        None \<Rightarrow> None
      | Some order \<Rightarrow>
          (case uu_get_free_pages G K (GFP_ATOMIC G) order s of
             Inl f \<Rightarrow> Some (Inl f)
           | Inr (table, s1) \<Rightarrow>
               if table = NULL \<and> PAGE_SIZE < sz
               then (if log2qty - 1 \<noteq> 0
                     then alloc_loop G K sz (log2qty - 1) s1
                     else Some (Inr (table, log2qty - 1, s1)))
               else Some (Inr (table, log2qty, s1))))"
  by pat_completeness auto
termination
proof (relation "measure (\<lambda>(G, K, sz, log2qty, s). unat (log2qty - 1))")
  show "wf (measure (\<lambda>(G, K, sz, log2qty, s). unat (log2qty - 1)))"
    by simp
next
  fix G :: gfp_h and K :: dde_kit and sz log2qty :: ulong and s s1 :: state
  assume "log2qty - 1 \<noteq> 0"
  then have "unat (log2qty - 1 - 1) < unat (log2qty - 1)"
    by (rule measure_unat)
  then show "((G, K, sz, log2qty - 1, s1), (G, K, sz, log2qty, s))
      \<in> measure (\<lambda>(G, K, sz, log2qty, s). unat (log2qty - 1))"
    by simp
qed

declare alloc_loop.simps [simp del]

text \<open>
  \<^verbatim>\<open>alloc_large_system_hash\<close>. Of its arguments the code uses \<^verbatim>\<open>bucketsize\<close> and
  \<^verbatim>\<open>numentries\<close> (and \<^verbatim>\<open>tablename\<close> in messages); the values written through
  \<^verbatim>\<open>_hash_shift\<close> and \<^verbatim>\<open>_hash_mask\<close> are returned after the table.
\<close>

definition alloc_large_system_hash ::
  "gfp_h \<Rightarrow> dde_kit \<Rightarrow> ulong \<Rightarrow> ulong \<Rightarrow> state \<Rightarrow> (fault + (ulong \<times> uint \<times> uint) \<times> state) option" where
  "alloc_large_system_hash G K bucketsize numentries s =
     (let numentries = (if numentries = 0 then 1024 else numentries);
          log2qty = ilog2 numentries;
          sz = shl bucketsize log2qty
      in case alloc_loop G K sz log2qty s of
           None \<Rightarrow> None
         | Some (Inl f) \<Rightarrow> Some (Inl f)
         | Some (Inr (table, log2qty, s1)) \<Rightarrow>
             if table = NULL then Some (Inl Panic)
             else Some (Inr ((table, log2qty, shl 1 log2qty - 1), s1)))"

subsection \<open>Sequences of operations\<close>

text \<open>
  A client's calls in a row: \<open>Alloc\<close> is \<^verbatim>\<open>__alloc_pages\<close>, \<open>Free\<close> is \<^verbatim>\<open>__free_pages\<close>;
  \<open>run\<close> stops at the first call that stops the program. \<open>page_cache_add_all\<close> adds
  pages to the cache one after the other.
\<close>

datatype op = Alloc gfp_t uint | Free ulong uint

fun exec :: "gfp_h \<Rightarrow> dde_kit \<Rightarrow> op \<Rightarrow> state \<Rightarrow> fault + state" where
  "exec G K (Alloc gfp_mask order) s =
     (case uu_alloc_pages G K gfp_mask order s of
        Inl f \<Rightarrow> Inl f
      | Inr (ret, s1) \<Rightarrow> Inr s1)"
| "exec G K (Free pg order) s = Inr (uu_free_pages pg order s)"

fun run :: "gfp_h \<Rightarrow> dde_kit \<Rightarrow> op list \<Rightarrow> state \<Rightarrow> fault + state" where
  "run G K [] s = Inr s"
| "run G K (x # xs) s =
     (case exec G K x s of
        Inl f \<Rightarrow> Inl f
      | Inr s1 \<Rightarrow> run G K xs s1)"

fun page_cache_add_all :: "dde_kit \<Rightarrow> ulong list \<Rightarrow> state \<Rightarrow> fault + state" where
  "page_cache_add_all K [] s = Inr s"
| "page_cache_add_all K (p # ps) s =
     (case dde_linux26_page_cache_add K p s of
        Inl f \<Rightarrow> Inl f
      | Inr s1 \<Rightarrow> page_cache_add_all K ps s1)"

text \<open>The number of entries of the cache, over all buckets.\<close>

definition cache_entries :: "state \<Rightarrow> nat" where
  "cache_entries s = sum_list (map length (dde_linux26_page_cache s))"

text \<open>The addresses the entries of the cache stand for, bucket after bucket.\<close>

definition cached_addresses :: "state \<Rightarrow> ulong list" where
  "cached_addresses s =
     map (\<lambda>e. virtual (pages s (page e))) (concat (dde_linux26_page_cache s))"

text \<open>The sizes requested from the provider, latest first.\<close>

fun requests :: "event list \<Rightarrow> ulong list" where
  "requests [] = []"
| "requests (Large_malloc sz p # tr) = sz # requests tr"
| "requests (Large_free p # tr) = requests tr"
| "requests (Kmalloc p # tr) = requests tr"

subsection \<open>A provider for the examples\<close>

text \<open>
  A provider of single pages out of a fixed pool: a request for one page gets the first
  page of the pool that is not granted at the moment (granted and not released since),
  every other request is denied. \<^verbatim>\<open>kmalloc\<close> hands out a new object at each call.
\<close>

fun live :: "event list \<Rightarrow> ulong \<Rightarrow> bool" where
  "live [] a = False"
| "live (Large_malloc sz p # tr) a = (if p = a then True else live tr a)"
| "live (Large_free p # tr) a = (if p = a then False else live tr a)"
| "live (Kmalloc p # tr) a = live tr a"

definition pool_malloc :: "ulong list \<Rightarrow> event list \<Rightarrow> ulong \<Rightarrow> ulong" where
  "pool_malloc pool tr sz =
     (if sz = PAGE_SIZE
      then (case filter (\<lambda>a. \<not> live tr a) pool of [] \<Rightarrow> NULL | a # _ \<Rightarrow> a)
      else NULL)"

fun kmallocs :: "event list \<Rightarrow> nat" where
  "kmallocs [] = 0"
| "kmallocs (Kmalloc p # tr) = Suc (kmallocs tr)"
| "kmallocs (e # tr) = kmallocs tr"

definition bump_kmalloc :: "event list \<Rightarrow> ulong" where
  "bump_kmalloc tr = 0xC0000000 + 0x20 * of_nat (kmallocs tr)"

definition pool_kit :: "ulong list \<Rightarrow> dde_kit" where
  "pool_kit pool = \<lparr>dde_kit_large_malloc = pool_malloc pool, kmalloc = bump_kmalloc\<rparr>"


text \<open>
  The flags of the examples, with the values of Linux 2.6; \<open>0xD0\<close> is its
  \<^verbatim>\<open>GFP_KERNEL\<close>, and \<open>0xD1\<close> is \<^verbatim>\<open>GFP_KERNEL | GFP_DMA\<close>.
\<close>

definition gfp_2_6 :: gfp_h where
  "gfp_2_6 = \<lparr>GFP_DMA = 0x01, GFP_ATOMIC = 0x20\<rparr>"

text \<open>
  The state after start-up: no call made, all memory and all page objects zero, the
  static array of buckets zero as C leaves it, and the \<^verbatim>\<open>core_initcall\<close> run.
\<close>

definition boot :: state where
  "boot = dde_linux26_page_cache_init
     \<lparr>trace = [], pages = (\<lambda>p. \<lparr>virtual = NULL\<rparr>), mem = (\<lambda>a. 0),
      dde_linux26_page_cache = replicate DDE_PAGE_CACHE_SIZE []\<rparr>"

text \<open>
  Page objects handed in from outside: a list of (address of the \<^verbatim>\<open>struct page\<close>, value of
  its \<^verbatim>\<open>virtual\<close> field) on top of the state after start-up.
\<close>

definition handed_in :: "(ulong \<times> ulong) list \<Rightarrow> state" where
  "handed_in ps =
     boot\<lparr>pages := (\<lambda>p. case map_of ps p of None \<Rightarrow> \<lparr>virtual = NULL\<rparr> | Some va \<Rightarrow> \<lparr>virtual = va\<rparr>)\<rparr>"

subsection \<open>States of the examples\<close>

text \<open>
  The pages \<open>0x100\<close> and \<open>0x200\<close>, both for the address \<open>0x1000\<close>, added in this order.
\<close>

definition shared_address :: state where
  "shared_address =
     (handed_in [(0x100, 0x1000), (0x200, 0x1000)])
       \<lparr>trace := [Kmalloc 0xC0000020, Kmalloc 0xC0000000],
        dde_linux26_page_cache :=
          (replicate DDE_PAGE_CACHE_SIZE [])[1 := [\<lparr>page = 0x200\<rparr>, \<lparr>page = 0x100\<rparr>]]\<rparr>"

text \<open>
  The pages \<open>0x100\<close> for \<open>0x1000\<close> and \<open>0x200\<close> for \<open>0x401000\<close>, two addresses of one
  bucket, added in this order.
\<close>

definition same_bucket :: state where
  "same_bucket =
     (handed_in [(0x100, 0x1000), (0x200, 0x401000)])
       \<lparr>trace := [Kmalloc 0xC0000020, Kmalloc 0xC0000000],
        dde_linux26_page_cache :=
          (replicate DDE_PAGE_CACHE_SIZE [])[1 := [\<lparr>page = 0x200\<rparr>, \<lparr>page = 0x100\<rparr>]]\<rparr>"

text \<open>
  The page \<open>0x200\<close> for \<open>0x2000\<close> added (\<open>one_entry\<close>), then the page \<open>0x100\<close> for
  \<open>0x1000\<close> (\<open>one_added\<close>).
\<close>

definition one_entry :: state where
  "one_entry =
     (handed_in [(0x100, 0x1000), (0x200, 0x2000)])
       \<lparr>trace := [Kmalloc 0xC0000000],
        dde_linux26_page_cache := (replicate DDE_PAGE_CACHE_SIZE [])[2 := [\<lparr>page = 0x200\<rparr>]]\<rparr>"

definition one_added :: state where
  "one_added =
     one_entry
       \<lparr>trace := [Kmalloc 0xC0000020, Kmalloc 0xC0000000],
        dde_linux26_page_cache :=
          (replicate DDE_PAGE_CACHE_SIZE [])[2 := [\<lparr>page = 0x200\<rparr>], 1 := [\<lparr>page = 0x100\<rparr>]]\<rparr>"

text \<open>
  The states that \<^verbatim>\<open>__alloc_pages\<close> and \<^verbatim>\<open>__free_pages\<close> reach from \<open>boot\<close> in the
  examples below, and a state whose memory is not zero.
\<close>

definition denied_state :: state where
  "denied_state =
     boot\<lparr>trace := [Kmalloc 0xC0000020, Large_malloc 0x1000 NULL, Kmalloc 0xC0000000],
          pages := (pages boot)(0xC0000000 := \<lparr>virtual = NULL\<rparr>),
          dde_linux26_page_cache := (replicate DDE_PAGE_CACHE_SIZE [])[0 := [\<lparr>page = 0xC0000000\<rparr>]]\<rparr>"

definition two_live :: state where
  "two_live =
     boot\<lparr>trace := [Kmalloc 0xC0000060, Large_malloc 0x1000 0x401000, Kmalloc 0xC0000040,
                    Kmalloc 0xC0000020, Large_malloc 0x1000 0x1000, Kmalloc 0xC0000000],
          pages := (pages boot)(0xC0000000 := \<lparr>virtual = 0x1000\<rparr>, 0xC0000040 := \<lparr>virtual = 0x401000\<rparr>),
          dde_linux26_page_cache :=
            (replicate DDE_PAGE_CACHE_SIZE [])[1 := [\<lparr>page = 0xC0000040\<rparr>, \<lparr>page = 0xC0000000\<rparr>]]\<rparr>"

definition regranted :: state where
  "regranted =
     boot\<lparr>trace := [Kmalloc 0xC00000A0, Large_malloc 0x1000 0x1000, Kmalloc 0xC0000080,
                    Large_free 0x1000,
                    Kmalloc 0xC0000060, Large_malloc 0x1000 0x401000, Kmalloc 0xC0000040,
                    Kmalloc 0xC0000020, Large_malloc 0x1000 0x1000, Kmalloc 0xC0000000],
          pages := (pages boot)(0xC0000000 := \<lparr>virtual = 0x1000\<rparr>, 0xC0000040 := \<lparr>virtual = 0x401000\<rparr>,
                                0xC0000080 := \<lparr>virtual = 0x1000\<rparr>),
          dde_linux26_page_cache :=
            (replicate DDE_PAGE_CACHE_SIZE [])
              [1 := [\<lparr>page = 0xC0000080\<rparr>, \<lparr>page = 0xC0000040\<rparr>, \<lparr>page = 0xC0000000\<rparr>]]\<rparr>"


definition twice_denied :: state where
  "twice_denied = boot\<lparr>trace := [Large_malloc 16384 NULL, Large_malloc 16384 NULL]\<rparr>"

definition dirty :: state where
  "dirty = boot\<lparr>mem := (\<lambda>a. 0xAA)\<rparr>"

section \<open>Properties\<close>

subsection \<open>Constants, hashing and masking\<close>

lemma shl_0: "shl x 0 = x"
  by (simp add: shl_def)

lemma shl_less: "n < 32 \<Longrightarrow> shl x n = push_bit (unat n) x"
  by (simp add: shl_def word_less_nat_alt)

lemma PAGE_MASK_mask: "PAGE_MASK = NOT (mask 12)"
  by (simp add: PAGE_MASK_def PAGE_SIZE_def PAGE_SHIFT_def mask_eq_exp_minus_1)

lemma DDE_PAGE_CACHE_MASK_mask: "DDE_PAGE_CACHE_MASK = mask 10"
  by (simp add: DDE_PAGE_CACHE_MASK_def DDE_PAGE_CACHE_SIZE_def DDE_PAGE_CACHE_SHIFT_def mask_eq_exp_minus_1)

lemma PAGE_MASK_eq: "PAGE_MASK = 0xFFFFF000"
  by (simp add: PAGE_MASK_def PAGE_SIZE_def PAGE_SHIFT_def)

lemma PAGE_SIZE_eq: "PAGE_SIZE = 0x1000"
  by (simp add: PAGE_SIZE_def PAGE_SHIFT_def)

text \<open>The page size shifted by an order: its value as a number, and where it wraps.\<close>

lemma unat_page_shift_mod:
  "unat (push_bit n PAGE_SIZE :: ulong) = (4096 * 2 ^ n) mod 2 ^ 32"
proof -
  have "unat (push_bit n PAGE_SIZE :: ulong) = take_bit 32 (push_bit n (unat PAGE_SIZE))"
    by (subst unsigned_push_bit_eq) simp
  also have "\<dots> = (4096 * 2 ^ n) mod 2 ^ 32"
    by (simp add: PAGE_SIZE_eq take_bit_eq_mod push_bit_eq_mult)
  finally show ?thesis .
qed

lemma unat_page_shift:
  assumes "n < 20"
  shows "unat (push_bit n PAGE_SIZE :: ulong) = 4096 * 2 ^ n"
proof -
  have "(2 :: nat) ^ (12 + n) < 2 ^ 32"
    using assms by (intro power_strict_increasing) simp_all
  then have "(4096 :: nat) * 2 ^ n < 2 ^ 32"
    by (simp add: power_add)
  then show ?thesis
    by (simp only: unat_page_shift_mod mod_less)
qed

lemma page_shift_zero:
  assumes "20 \<le> n"
  shows "push_bit n PAGE_SIZE = (0 :: ulong)"
proof -
  have "push_bit n PAGE_SIZE = (2 ^ (12 + n) :: ulong)"
    by (simp add: PAGE_SIZE_def PAGE_SHIFT_def push_bit_eq_mult power_add)
  also have "\<dots> = 0"
    using assms by simp
  finally show ?thesis .
qed

lemma hash_0x1000: "VIRT_TO_PAGEHASH 0x1000 = 1"
  by (simp add: VIRT_TO_PAGEHASH_def PAGE_SHIFT_def DDE_PAGE_CACHE_MASK_def DDE_PAGE_CACHE_SIZE_def DDE_PAGE_CACHE_SHIFT_def drop_bit_eq_div)

lemma hash_0x401000: "VIRT_TO_PAGEHASH 0x401000 = 1"
  by (simp add: VIRT_TO_PAGEHASH_def PAGE_SHIFT_def DDE_PAGE_CACHE_MASK_def DDE_PAGE_CACHE_SIZE_def DDE_PAGE_CACHE_SHIFT_def drop_bit_eq_div)

lemma hash_0x2000: "VIRT_TO_PAGEHASH 0x2000 = 2"
  by (simp add: VIRT_TO_PAGEHASH_def PAGE_SHIFT_def DDE_PAGE_CACHE_MASK_def DDE_PAGE_CACHE_SIZE_def DDE_PAGE_CACHE_SHIFT_def drop_bit_eq_div)

lemma hash_0: "VIRT_TO_PAGEHASH 0 = 0"
  by (simp add: VIRT_TO_PAGEHASH_def)

text \<open>The hash does not depend on the page-offset bits, and it is an index of the array.\<close>

lemma VIRT_TO_PAGEHASH_PAGE_MASK: "VIRT_TO_PAGEHASH (va AND PAGE_MASK) = VIRT_TO_PAGEHASH va"
  unfolding VIRT_TO_PAGEHASH_def PAGE_MASK_mask PAGE_SHIFT_def DDE_PAGE_CACHE_MASK_mask
  by (rule bit_eqI) (auto simp add: bit_simps)

lemma VIRT_TO_PAGEHASH_less: "unat (VIRT_TO_PAGEHASH a) < DDE_PAGE_CACHE_SIZE"
proof -
  have "VIRT_TO_PAGEHASH a < 2 ^ 10"
    unfolding VIRT_TO_PAGEHASH_def DDE_PAGE_CACHE_MASK_mask
    by (rule and_mask_less') simp
  then show ?thesis
    by (simp add: DDE_PAGE_CACHE_SIZE_def DDE_PAGE_CACHE_SHIFT_def word_less_nat_alt)
qed

text \<open>An offset below the page size added to a page-aligned address is masked away.\<close>

lemma offset_PAGE_MASK:
  assumes "off < PAGE_SIZE"
  shows "off AND PAGE_MASK = 0"
proof -
  have "off < 2 ^ 12"
    using assms by (simp add: PAGE_SIZE_def PAGE_SHIFT_def)
  then have "off AND mask 12 = off"
    by (rule less_mask_eq)
  then have "off AND PAGE_MASK = (off AND mask 12) AND NOT (mask 12)"
    by (simp add: PAGE_MASK_mask)
  also have "\<dots> = 0"
    by (simp add: and.assoc)
  finally show ?thesis .
qed

lemma page_offset_masked:
  assumes "va AND PAGE_MASK = va" and "off < PAGE_SIZE"
  shows "(va + off) AND PAGE_MASK = va"
proof -
  have off: "off AND PAGE_MASK = 0"
    using assms(2) by (rule offset_PAGE_MASK)
  have "va AND off = (va AND PAGE_MASK) AND off"
    by (simp add: assms(1))
  also have "\<dots> = va AND (off AND PAGE_MASK)"
    by (simp add: ac_simps)
  finally have "va AND off = 0"
    by (simp add: off)
  then have "va + off = va OR off"
    by (rule disjunctive_add_eq_or)
  then have "(va + off) AND PAGE_MASK = (va AND PAGE_MASK) OR (off AND PAGE_MASK)"
    by (simp add: bit.conj_disj_distrib2)
  then show ?thesis
    by (simp add: assms(1) off)
qed

lemma page_offset_hash:
  assumes "va AND PAGE_MASK = va" and "off < PAGE_SIZE"
  shows "VIRT_TO_PAGEHASH (va + off) = VIRT_TO_PAGEHASH va"
  using VIRT_TO_PAGEHASH_PAGE_MASK [of "va + off"] page_offset_masked [OF assms]
  by simp

subsection \<open>Start-up\<close>

lemma init_fold:
  "length c = n \<Longrightarrow> m \<le> n \<Longrightarrow> fold (\<lambda>i c. c[i := []]) [0..<m] c = replicate m [] @ drop m c"
proof (induction m)
  case 0
  then show ?case by simp
next
  case (Suc m)
  then have "fold (\<lambda>i c. c[i := []]) [0..<Suc m] c = (replicate m [] @ drop m c)[m := []]"
    by simp
  also have "\<dots> = replicate m [] @ (drop m c)[0 := []]"
    by (simp add: list_update_append)
  also have "(drop m c)[0 := []] = [] # drop (Suc m) c"
    using Suc.prems by (cases "drop m c") (auto simp: drop_Suc drop_tl)
  also have "replicate m [] @ [] # drop (Suc m) c = replicate (Suc m) [] @ drop (Suc m) c"
    by (simp add: replicate_append_same)
  finally show ?case .
qed

lemma dde_linux26_page_cache_init_empty:
  "length (dde_linux26_page_cache s) = DDE_PAGE_CACHE_SIZE \<Longrightarrow>
   dde_linux26_page_cache (dde_linux26_page_cache_init s) = replicate DDE_PAGE_CACHE_SIZE []"
  by (simp add: dde_linux26_page_cache_init_def init_fold)

lemma boot_eq:
  "boot = \<lparr>trace = [], pages = (\<lambda>p. \<lparr>virtual = NULL\<rparr>), mem = (\<lambda>a. 0),
      dde_linux26_page_cache = replicate DDE_PAGE_CACHE_SIZE []\<rparr>"
  by (simp add: boot_def dde_linux26_page_cache_init_def init_fold)

lemma concat_single_bucket:
  "i < n \<Longrightarrow> concat ((replicate n [])[i := b]) = b"
  by (simp add: upd_conv_take_nth_drop)

lemmas example_simps =
  boot_eq pool_kit_def pool_malloc_def bump_kmalloc_def gfp_2_6_def
  uu_alloc_pages_def uu_get_free_pages_def dde_linux26_page_cache_add_def hlist_add_head_def
  uu_free_pages_def free_pages_def dde_linux26_page_cache_remove_def hlist_del_def
  dde_linux26_page_lookup_def
  shl_def PAGE_SIZE_eq PAGE_MASK_eq hash_0x1000 hash_0x401000
  DDE_PAGE_CACHE_SIZE_def DDE_PAGE_CACHE_SHIFT_def

subsection \<open>The page cache\<close>

text \<open>The scan of lookup skips the nodes in front that do not match.\<close>

lemma lookup_scan_append:
  "\<forall>x \<in> set front. virtual (pg (page x)) \<noteq> key \<Longrightarrow>
   lookup_scan pg key (front @ behind) = lookup_scan pg key behind"
  by (induction front) simp_all

lemma remove_scan_None:
  "\<forall>e \<in> set h. virtual (pg (page e)) \<noteq> key \<Longrightarrow> remove_scan pg key h = None"
  by (cases h) simp_all

lemma remove_scan_Some:
  "remove_scan pg key h = Some v \<Longrightarrow> v = 0 \<and> (\<exists>e rest. h = e # rest \<and> virtual (pg (page e)) = key)"
  by (cases h) (simp_all split: if_splits)

lemma dde_linux26_page_cache_remove_cases:
  "dde_linux26_page_cache_remove p s = s \<or>
   (\<exists>e rest. dde_linux26_page_cache s ! unat (VIRT_TO_PAGEHASH (virtual (pages s p))) = e # rest
      \<and> virtual (pages s (page e)) = virtual (pages s p) AND PAGE_MASK
      \<and> dde_linux26_page_cache_remove p s =
          s\<lparr>dde_linux26_page_cache :=
              (dde_linux26_page_cache s)[unat (VIRT_TO_PAGEHASH (virtual (pages s p))) := rest]\<rparr>)"
  by (auto simp: dde_linux26_page_cache_remove_def hlist_del_def Let_def
      split: option.splits dest!: remove_scan_Some)

lemma dde_linux26_page_cache_remove_absent:
  assumes "\<forall>i < DDE_PAGE_CACHE_SIZE. \<forall>e \<in> set (dde_linux26_page_cache s ! i).
             virtual (pages s (page e)) \<noteq> virtual (pages s p) AND PAGE_MASK"
  shows "dde_linux26_page_cache_remove p s = s"
proof -
  have "\<forall>e \<in> set (dde_linux26_page_cache s ! unat (VIRT_TO_PAGEHASH (virtual (pages s p)))).
          virtual (pages s (page e)) \<noteq> virtual (pages s p) AND PAGE_MASK"
    using assms VIRT_TO_PAGEHASH_less by blast
  then have "remove_scan (pages s) (virtual (pages s p) AND PAGE_MASK)
      (dde_linux26_page_cache s ! unat (VIRT_TO_PAGEHASH (virtual (pages s p)))) = None"
    by (rule remove_scan_None)
  then show ?thesis
    by (simp add: dde_linux26_page_cache_remove_def)
qed

lemma dde_linux26_page_cache_remove_frame:
  "pages (dde_linux26_page_cache_remove p s) = pages s
   \<and> trace (dde_linux26_page_cache_remove p s) = trace s
   \<and> mem (dde_linux26_page_cache_remove p s) = mem s
   \<and> length (dde_linux26_page_cache (dde_linux26_page_cache_remove p s)) = length (dde_linux26_page_cache s)"
  by (simp add: dde_linux26_page_cache_remove_def Let_def split: option.splits)

lemma lookup_remove_other:
  assumes "va AND PAGE_MASK \<noteq> virtual (pages s p) AND PAGE_MASK"
  shows "dde_linux26_page_lookup va (dde_linux26_page_cache_remove p s) = dde_linux26_page_lookup va s"
proof -
  let ?h = "unat (VIRT_TO_PAGEHASH (virtual (pages s p)))"
  consider "dde_linux26_page_cache_remove p s = s"
    | e rest where "dde_linux26_page_cache s ! ?h = e # rest"
        "virtual (pages s (page e)) = virtual (pages s p) AND PAGE_MASK"
        "dde_linux26_page_cache_remove p s = s\<lparr>dde_linux26_page_cache := (dde_linux26_page_cache s)[?h := rest]\<rparr>"
    using dde_linux26_page_cache_remove_cases [of p s] by blast
  then show ?thesis
  proof cases
    case 1
    then show ?thesis by simp
  next
    case 2
    show ?thesis
    proof (cases "?h < length (dde_linux26_page_cache s)")
      case True
      show ?thesis
      proof (cases "unat (VIRT_TO_PAGEHASH va) = ?h")
        case same: True
        have "lookup_scan (pages s) (va AND PAGE_MASK) (e # rest)
            = lookup_scan (pages s) (va AND PAGE_MASK) rest"
          using 2(2) assms by simp
        with same True 2(1,3) show ?thesis
          by (simp add: dde_linux26_page_lookup_def)
      next
        case False
        with True 2(3) show ?thesis
          by (simp add: dde_linux26_page_lookup_def)
      qed
    next
      case False
      with 2 show ?thesis
        by (simp add: dde_linux26_page_lookup_def not_less list_update_beyond)
    qed
  qed
qed

lemma lookup_remove_cases:
  "dde_linux26_page_lookup va (dde_linux26_page_cache_remove p s) = dde_linux26_page_lookup va s
   \<or> (\<exists>e rest. dde_linux26_page_cache s ! unat (VIRT_TO_PAGEHASH (virtual (pages s p))) = e # rest
         \<and> virtual (pages s (page e)) = virtual (pages s p) AND PAGE_MASK
         \<and> dde_linux26_page_lookup va s = page e)"
proof (cases "va AND PAGE_MASK = virtual (pages s p) AND PAGE_MASK")
  case False
  then show ?thesis
    by (simp add: lookup_remove_other)
next
  case True
  then have "VIRT_TO_PAGEHASH (va AND PAGE_MASK) = VIRT_TO_PAGEHASH (virtual (pages s p) AND PAGE_MASK)"
    by simp
  then have hash: "VIRT_TO_PAGEHASH va = VIRT_TO_PAGEHASH (virtual (pages s p))"
    by (simp only: VIRT_TO_PAGEHASH_PAGE_MASK)
  from dde_linux26_page_cache_remove_cases [of p s] show ?thesis
  proof
    assume "dde_linux26_page_cache_remove p s = s"
    then show ?thesis by simp
  next
    assume "\<exists>e rest. dde_linux26_page_cache s ! unat (VIRT_TO_PAGEHASH (virtual (pages s p))) = e # rest
      \<and> virtual (pages s (page e)) = virtual (pages s p) AND PAGE_MASK
      \<and> dde_linux26_page_cache_remove p s =
          s\<lparr>dde_linux26_page_cache :=
              (dde_linux26_page_cache s)[unat (VIRT_TO_PAGEHASH (virtual (pages s p))) := rest]\<rparr>"
    then obtain e rest where
      b: "dde_linux26_page_cache s ! unat (VIRT_TO_PAGEHASH (virtual (pages s p))) = e # rest"
      and m: "virtual (pages s (page e)) = virtual (pages s p) AND PAGE_MASK"
      by blast
    from b m True hash have "dde_linux26_page_lookup va s = page e"
      by (simp add: dde_linux26_page_lookup_def)
    with b m show ?thesis
      by blast
  qed
qed

lemma dde_linux26_page_cache_add_Inr:
  assumes "dde_linux26_page_cache_add K p s = Inr s1"
  shows "pages s1 = pages s" and "mem s1 = mem s"
    and "length (dde_linux26_page_cache s1) = length (dde_linux26_page_cache s)"
    and "dde_linux26_page_cache s1 =
           (dde_linux26_page_cache s)[unat (VIRT_TO_PAGEHASH (virtual (pages s p))) :=
              \<lparr>page = p\<rparr> # dde_linux26_page_cache s ! unat (VIRT_TO_PAGEHASH (virtual (pages s p)))]"
  using assms
  by (auto simp: dde_linux26_page_cache_add_def Let_def hlist_add_head_def split: if_splits)

lemma add_then_remove_absent:
  assumes none: "\<forall>i < DDE_PAGE_CACHE_SIZE. \<forall>e \<in> set (dde_linux26_page_cache s ! i).
             virtual (pages s (page e)) \<noteq> virtual (pages s p) AND PAGE_MASK"
    and add: "dde_linux26_page_cache_add K p s = Inr s1"
  shows "\<forall>i < DDE_PAGE_CACHE_SIZE.
           \<forall>e \<in> set (dde_linux26_page_cache (dde_linux26_page_cache_remove p s1) ! i).
             virtual (pages s1 (page e)) \<noteq> virtual (pages s1 p) AND PAGE_MASK"
proof -
  let ?key = "virtual (pages s p) AND PAGE_MASK"
  let ?h = "unat (VIRT_TO_PAGEHASH (virtual (pages s p)))"
  let ?c = "dde_linux26_page_cache s"
  note s1 = dde_linux26_page_cache_add_Inr [OF add]
  consider "dde_linux26_page_cache_remove p s1 = s1"
    | e rest where "dde_linux26_page_cache s1 ! ?h = e # rest"
        "virtual (pages s1 (page e)) = ?key"
        "dde_linux26_page_cache_remove p s1 = s1\<lparr>dde_linux26_page_cache := (dde_linux26_page_cache s1)[?h := rest]\<rparr>"
    using dde_linux26_page_cache_remove_cases [of p s1] s1(1) by auto
  then show ?thesis
  proof cases
    case 1
    show ?thesis
    proof (cases "?h < length ?c")
      case True
      have "virtual (pages s p) \<noteq> ?key"
      proof
        assume eq: "virtual (pages s p) = ?key"
        then have "remove_scan (pages s1) (virtual (pages s1 p) AND PAGE_MASK) (dde_linux26_page_cache s1 ! ?h) = Some 0"
          using True s1 by simp
        then have "dde_linux26_page_cache (dde_linux26_page_cache_remove p s1) = ?c"
          using True s1 by (simp add: dde_linux26_page_cache_remove_def hlist_del_def)
        with 1 s1(4) have "?c = ?c[?h := \<lparr>page = p\<rparr> # ?c ! ?h]"
          by simp
        then have "?c ! ?h = (?c[?h := \<lparr>page = p\<rparr> # ?c ! ?h]) ! ?h"
          by simp
        with True show False
          by simp
      qed
      with none 1 s1 True show ?thesis
        by (auto simp: nth_list_update)
    next
      case False
      with none 1 s1 show ?thesis
        by (simp add: not_less list_update_beyond)
    qed
  next
    case 2
    show ?thesis
    proof (cases "?h < length ?c")
      case True
      with 2(1) s1(4) have "rest = ?c ! ?h"
        by simp
      with 2(3) s1(4) True have "dde_linux26_page_cache (dde_linux26_page_cache_remove p s1) = ?c"
        by simp
      with none s1(1) show ?thesis
        by simp
    next
      case False
      with 2(3) s1(4) have "dde_linux26_page_cache (dde_linux26_page_cache_remove p s1) = ?c"
        by (simp add: not_less list_update_beyond)
      with none s1(1) show ?thesis
        by simp
    qed
  qed
qed

lemma second_remove_no_op:
  assumes none: "\<forall>i < DDE_PAGE_CACHE_SIZE. \<forall>e \<in> set (dde_linux26_page_cache s ! i).
             virtual (pages s (page e)) \<noteq> virtual (pages s p) AND PAGE_MASK"
    and add: "dde_linux26_page_cache_add K p s = Inr s1"
  shows "dde_linux26_page_cache_remove p (dde_linux26_page_cache_remove p s1)
       = dde_linux26_page_cache_remove p s1"
proof (rule dde_linux26_page_cache_remove_absent)
  show "\<forall>i<DDE_PAGE_CACHE_SIZE.
       \<forall>e\<in>set (dde_linux26_page_cache (dde_linux26_page_cache_remove p s1) ! i).
          virtual (pages (dde_linux26_page_cache_remove p s1) (page e)) \<noteq>
          virtual (pages (dde_linux26_page_cache_remove p s1) p) AND PAGE_MASK"
    using add_then_remove_absent [OF none add]
    by (simp add: dde_linux26_page_cache_remove_frame)
qed

lemma add_remove_restores:
  assumes len: "length (dde_linux26_page_cache s) = DDE_PAGE_CACHE_SIZE"
    and aligned: "virtual (pages s p) AND PAGE_MASK = virtual (pages s p)"
    and add: "dde_linux26_page_cache_add K p s = Inr s1"
  shows "dde_linux26_page_cache (dde_linux26_page_cache_remove p s1) = dde_linux26_page_cache s"
proof -
  note s1 = dde_linux26_page_cache_add_Inr [OF add]
  have h: "unat (VIRT_TO_PAGEHASH (virtual (pages s p))) < length (dde_linux26_page_cache s)"
    using len VIRT_TO_PAGEHASH_less by simp
  then show ?thesis
    using s1 aligned
    by (simp add: dde_linux26_page_cache_remove_def hlist_del_def)
qed

lemma lookup_add:
  assumes len: "length (dde_linux26_page_cache s) = DDE_PAGE_CACHE_SIZE"
    and add: "dde_linux26_page_cache_add K p s = Inr s1"
  shows "dde_linux26_page_lookup va s1 =
           (if virtual (pages s p) = va AND PAGE_MASK then p else dde_linux26_page_lookup va s)"
proof -
  let ?h = "unat (VIRT_TO_PAGEHASH (virtual (pages s p)))"
  note s1 = dde_linux26_page_cache_add_Inr [OF add]
  have h: "?h < length (dde_linux26_page_cache s)"
    using len VIRT_TO_PAGEHASH_less by simp
  show ?thesis
  proof (cases "virtual (pages s p) = va AND PAGE_MASK")
    case True
    then have "VIRT_TO_PAGEHASH (virtual (pages s p)) = VIRT_TO_PAGEHASH va"
      by (simp add: VIRT_TO_PAGEHASH_PAGE_MASK)
    with True h s1 show ?thesis
      by (simp add: dde_linux26_page_lookup_def)
  next
    case False
    with h s1 show ?thesis
      by (auto simp: dde_linux26_page_lookup_def nth_list_update Let_def)
  qed
qed

lemma find_snoc:
  "find P (xs @ [x]) = (case find P xs of None \<Rightarrow> (if P x then Some x else None) | Some y \<Rightarrow> Some y)"
  by (induction xs) simp_all

lemma page_cache_add_all_frame:
  "page_cache_add_all K ps s = Inr s' \<Longrightarrow>
   pages s' = pages s \<and> length (dde_linux26_page_cache s') = length (dde_linux26_page_cache s)"
proof (induction ps arbitrary: s)
  case Nil
  then show ?case by simp
next
  case (Cons p ps)
  then obtain s1 where s1: "dde_linux26_page_cache_add K p s = Inr s1"
    and rest: "page_cache_add_all K ps s1 = Inr s'"
    by (auto split: sum.splits)
  from Cons.IH [OF rest] dde_linux26_page_cache_add_Inr [OF s1] show ?case
    by simp
qed

lemma lookup_add_all:
  assumes "length (dde_linux26_page_cache s) = DDE_PAGE_CACHE_SIZE"
    and "page_cache_add_all K ps s = Inr s'"
  shows "dde_linux26_page_lookup va s' =
           (case find (\<lambda>p. virtual (pages s p) = va AND PAGE_MASK) (rev ps) of
              None \<Rightarrow> dde_linux26_page_lookup va s
            | Some p \<Rightarrow> p)"
  using assms
proof (induction ps arbitrary: s)
  case Nil
  then show ?case by simp
next
  case (Cons p ps)
  from Cons.prems(2) obtain s1 where s1: "dde_linux26_page_cache_add K p s = Inr s1"
    and rest: "page_cache_add_all K ps s1 = Inr s'"
    by (auto split: sum.splits)
  note f = dde_linux26_page_cache_add_Inr [OF s1]
  have "dde_linux26_page_lookup va s' =
          (case find (\<lambda>p. virtual (pages s1 p) = va AND PAGE_MASK) (rev ps) of
             None \<Rightarrow> dde_linux26_page_lookup va s1
           | Some p \<Rightarrow> p)"
    using Cons.prems(1) f(3) rest by (intro Cons.IH) simp_all
  then show ?case
    using lookup_add [OF Cons.prems(1) s1, of va] f(1)
    by (simp add: find_snoc split: option.splits)
qed

lemma shared_address_reached:
  "page_cache_add_all (pool_kit []) [0x100, 0x200] (handed_in [(0x100, 0x1000), (0x200, 0x1000)])
     = Inr shared_address"
  by (simp add: shared_address_def handed_in_def boot_eq dde_linux26_page_cache_add_def
      pool_kit_def bump_kmalloc_def hash_0x1000 hlist_add_head_def DDE_PAGE_CACHE_SIZE_def DDE_PAGE_CACHE_SHIFT_def)

subsection \<open>Allocation\<close>

lemma uu_get_free_pages_eq:
  "uu_get_free_pages G K gfp_mask order s =
     (if gfp_mask = GFP_DMA G then Inl Assertion_failed
      else Inr (dde_kit_large_malloc K (trace s) (shl PAGE_SIZE order),
                s\<lparr>trace := Large_malloc (shl PAGE_SIZE order)
                     (dde_kit_large_malloc K (trace s) (shl PAGE_SIZE order)) # trace s\<rparr>))"
  by (simp add: uu_get_free_pages_def Let_def)

lemma uu_alloc_pages_Inr:
  assumes "uu_alloc_pages G K gfp_mask order s = Inr (ret, s1)"
  shows "gfp_mask \<noteq> GFP_DMA G" and "ret = kmalloc K (trace s)" and "ret \<noteq> NULL"
    and "requests (trace s1) = shl PAGE_SIZE order # requests (trace s)"
    and "virtual (pages s1 ret) =
           dde_kit_large_malloc K (Kmalloc ret # trace s) (shl PAGE_SIZE order)"
  using assms
  by (auto simp: uu_alloc_pages_def uu_get_free_pages_eq dde_linux26_page_cache_add_def Let_def
      split: if_splits sum.splits)

lemma uu_alloc_pages_returns:
  assumes "gfp_mask \<noteq> GFP_DMA G"
    and "ret = kmalloc K (trace s)"
    and "va = dde_kit_large_malloc K (Kmalloc ret # trace s) (shl PAGE_SIZE order)"
    and "e = kmalloc K (Large_malloc (shl PAGE_SIZE order) va # Kmalloc ret # trace s)"
    and "ret \<noteq> NULL" and "e \<noteq> NULL"
  shows "\<exists>s1. uu_alloc_pages G K gfp_mask order s = Inr (ret, s1)
           \<and> virtual (pages s1 ret) = va
           \<and> requests (trace s1) = shl PAGE_SIZE order # requests (trace s)"
  using assms
  by (simp add: uu_alloc_pages_def uu_get_free_pages_eq dde_linux26_page_cache_add_def Let_def)




lemma memset_inside: "a - p < n \<Longrightarrow> memset m p c n a = c"
  by (simp add: memset_def)

lemma memset_outside: "\<not> a - p < n \<Longrightarrow> memset m p c n a = m a"
  by (simp add: memset_def)

lemma two_live_reached:
  "run gfp_2_6 (pool_kit [0x1000, 0x401000]) [Alloc 0xD0 0, Alloc 0xD0 0] boot = Inr two_live"
  by (simp add: example_simps two_live_def)

lemma order_loop_16384: "order_loop 16384 0 = Some 2"
  by (simp add: order_loop.simps PAGE_SHIFT_def shl_def)

lemma ilog2_4: "ilog2 4 = 2"
  by (simp add: ilog2_def ilog2_nat.simps)

subsection \<open>The unchecked results and the loops, in general\<close>

lemma cache_entries_add:
  assumes "length (dde_linux26_page_cache s) = DDE_PAGE_CACHE_SIZE"
    and "dde_linux26_page_cache_add K p s = Inr s1"
  shows "cache_entries s1 = Suc (cache_entries s)"
proof -
  let ?c = "dde_linux26_page_cache s"
  let ?h = "unat (VIRT_TO_PAGEHASH (virtual (pages s p)))"
  have h: "?h < length ?c"
    using assms(1) VIRT_TO_PAGEHASH_less by simp
  then have "length (?c ! ?h) \<le> sum_list (map length ?c)"
    by (simp add: member_le_sum_list)
  with h dde_linux26_page_cache_add_Inr(4) [OF assms(2)] show ?thesis
    by (simp add: cache_entries_def map_update sum_list_update)
qed

text \<open>
  Whatever the provider answers, a null address included, \<^verbatim>\<open>__alloc_pages\<close> returns the
  descriptor it got from \<^verbatim>\<open>kmalloc\<close> and the cache has one entry more.
\<close>

lemma uu_alloc_pages_registers:
  assumes "length (dde_linux26_page_cache s) = DDE_PAGE_CACHE_SIZE"
    and "uu_alloc_pages G K gfp_mask order s = Inr (ret, s1)"
  shows "ret \<noteq> NULL" and "cache_entries s1 = Suc (cache_entries s)"
proof -
  show "ret \<noteq> NULL"
    using assms(2) by (rule uu_alloc_pages_Inr(3))
  from assms(2) obtain s2 where
    add: "dde_linux26_page_cache_add K ret s2 = Inr s1"
    and c: "dde_linux26_page_cache s2 = dde_linux26_page_cache s"
    by (auto simp: uu_alloc_pages_def uu_get_free_pages_eq Let_def split: if_splits sum.splits)
  from cache_entries_add [OF _ add] assms(1) c show "cache_entries s1 = Suc (cache_entries s)"
    by (simp add: cache_entries_def)
qed

text \<open>
  When the first node of the bucket of \<open>d\<close> holds another address, \<^verbatim>\<open>__free_pages\<close> leaves the
  cache as it is.
\<close>

lemma uu_free_pages_head_only:
  assumes "dde_linux26_page_cache s ! unat (VIRT_TO_PAGEHASH (virtual (pages s d))) = e # rest"
    and "virtual (pages s (page e)) \<noteq> virtual (pages s d) AND PAGE_MASK"
  shows "dde_linux26_page_cache (uu_free_pages d order s) = dde_linux26_page_cache s"
    and "dde_linux26_page_lookup va (uu_free_pages d order s) = dde_linux26_page_lookup va s"
  using assms
  by (simp_all add: uu_free_pages_def free_pages_def dde_linux26_page_cache_remove_def
      dde_linux26_page_lookup_def)

text \<open>
  Every request of the loop of \<^verbatim>\<open>alloc_large_system_hash\<close> has the size of the first.
\<close>

lemma alloc_loop_requests:
  assumes "alloc_loop G K sz log2qty s = Some (Inr (table, l, s1))"
  shows "\<exists>order n. order_loop sz 0 = Some order
           \<and> requests (trace s1) = replicate (Suc n) (shl PAGE_SIZE order) @ requests (trace s)"
  using assms
proof (induction G K sz log2qty s rule: alloc_loop.induct)
  case (1 G K sz log2qty s)
  from "1.prems" obtain order where order: "order_loop sz 0 = Some order"
    by (subst (asm) alloc_loop.simps) (auto split: option.splits)
  with "1.prems" have gfp: "GFP_ATOMIC G \<noteq> GFP_DMA G"
    by (subst (asm) alloc_loop.simps) (auto simp: uu_get_free_pages_eq split: if_splits)
  let ?size = "shl PAGE_SIZE order"
  let ?p = "dde_kit_large_malloc K (trace s) ?size"
  let ?s = "s\<lparr>trace := Large_malloc ?size ?p # trace s\<rparr>"
  have get: "uu_get_free_pages G K (GFP_ATOMIC G) order s = Inr (?p, ?s)"
    using gfp by (simp add: uu_get_free_pages_eq)
  show ?case
  proof (cases "?p = NULL \<and> PAGE_SIZE < sz \<and> log2qty - 1 \<noteq> 0")
    case True
    with "1.prems" order get have "alloc_loop G K sz (log2qty - 1) ?s = Some (Inr (table, l, s1))"
      by (subst (asm) alloc_loop.simps) simp
    with "1.IH" [OF order get refl] True obtain n where
      "requests (trace s1) = replicate (Suc n) ?size @ requests (trace ?s)"
      using order by auto
    then have "requests (trace s1) = replicate (Suc (Suc n)) ?size @ requests (trace s)"
      by (simp add: replicate_append_same)
    with order show ?thesis
      by blast
  next
    case False
    with "1.prems" order get have "s1 = ?s"
      by (subst (asm) alloc_loop.simps) (auto split: if_splits)
    then have "requests (trace s1) = replicate (Suc 0) ?size @ requests (trace s)"
      by simp
    with order show ?thesis
      by blast
  qed
qed

section \<open>The claims\<close>

text \<open>
  C1. If the provider denies the request, \<^verbatim>\<open>__alloc_pages\<close> returns failure, creates no
  descriptor and leaves the number of cache entries as it was. The code does not do
  this. With a provider that denies every request, \<^verbatim>\<open>__alloc_pages\<close> at start-up returns
  the descriptor \<open>0xC0000000\<close>, not \<open>NULL\<close>; the descriptor's address is \<open>NULL\<close>; the cache
  goes from 0 entries to 1; and the lookup of address 0 finds the descriptor.
\<close>

theorem alloc_pages_on_denial:
  "dde_kit_large_malloc (pool_kit []) tr sz = NULL
   \<and> uu_alloc_pages gfp_2_6 (pool_kit []) 0xD0 0 boot = Inr (0xC0000000, denied_state)
   \<and> virtual (pages denied_state 0xC0000000) = NULL
   \<and> cache_entries boot = 0
   \<and> cache_entries denied_state = 1
   \<and> dde_linux26_page_lookup NULL denied_state = 0xC0000000"
  apply (intro conjI)
       apply (simp add: pool_kit_def pool_malloc_def)
      apply (simp add: example_simps denied_state_def hash_0)
     apply (simp add: denied_state_def)
    apply (simp add: cache_entries_def boot_eq)
   apply (simp add: cache_entries_def denied_state_def DDE_PAGE_CACHE_SIZE_def DDE_PAGE_CACHE_SHIFT_def map_update sum_list_update)
  apply (simp add: example_simps denied_state_def hash_0)
  done

text \<open>
  C2. After \<^verbatim>\<open>__free_pages(d, order)\<close> the lookup of the address of \<open>d\<close> finds nothing,
  wherever \<open>d\<close> stands in its bucket. The code does not do this. Two allocations get
  \<open>0x1000\<close> and \<open>0x401000\<close>, which share bucket 1; the descriptor \<open>0xC0000000\<close> of
  \<open>0x1000\<close> is the second node of the bucket. After it is freed the lookup of \<open>0x1000\<close>
  still returns it.
\<close>

theorem free_pages_behind_head:
  "run gfp_2_6 (pool_kit [0x1000, 0x401000]) [Alloc 0xD0 0, Alloc 0xD0 0] boot = Inr two_live
   \<and> virtual (pages two_live 0xC0000000) = 0x1000
   \<and> dde_linux26_page_lookup 0x1000 two_live = 0xC0000000
   \<and> dde_linux26_page_lookup 0x1000 (uu_free_pages 0xC0000000 0 two_live) = 0xC0000000"
  apply (intro conjI)
     apply (rule two_live_reached)
    apply (simp add: two_live_def)
   apply (simp add: example_simps two_live_def)
  apply (simp add: example_simps two_live_def)
  done

text \<open>
  C3. At every point of a sequence of allocations and releases that starts at the empty
  cache, the cache holds at most one descriptor for an address. The code does not keep
  this. After the two allocations and the release of C2 the provider, to which
  \<open>0x1000\<close> was released, grants it again: bucket 1 then holds the new descriptor
  \<open>0xC0000080\<close> and the old descriptor \<open>0xC0000000\<close>, both for \<open>0x1000\<close>, and the
  list of the addresses in the cache has \<open>0x1000\<close> twice.
\<close>

theorem regrant_duplicates:
  "run gfp_2_6 (pool_kit [0x1000, 0x401000])
     [Alloc 0xD0 0, Alloc 0xD0 0, Free 0xC0000000 0, Alloc 0xD0 0] boot = Inr regranted
   \<and> dde_linux26_page_cache regranted ! 1 =
       [\<lparr>page = 0xC0000080\<rparr>, \<lparr>page = 0xC0000040\<rparr>, \<lparr>page = 0xC0000000\<rparr>]
   \<and> virtual (pages regranted 0xC0000080) = 0x1000
   \<and> virtual (pages regranted 0xC0000000) = 0x1000
   \<and> cached_addresses boot = []
   \<and> cached_addresses regranted = [0x1000, 0x401000, 0x1000]
   \<and> \<not> distinct (cached_addresses regranted)"
proof (intro conjI)
  show "run gfp_2_6 (pool_kit [0x1000, 0x401000])
     [Alloc 0xD0 0, Alloc 0xD0 0, Free 0xC0000000 0, Alloc 0xD0 0] boot = Inr regranted"
    by (simp add: example_simps regranted_def)
  show "dde_linux26_page_cache regranted ! 1 =
       [\<lparr>page = 0xC0000080\<rparr>, \<lparr>page = 0xC0000040\<rparr>, \<lparr>page = 0xC0000000\<rparr>]"
    by (simp add: regranted_def DDE_PAGE_CACHE_SIZE_def DDE_PAGE_CACHE_SHIFT_def)
  show "virtual (pages regranted 0xC0000080) = 0x1000"
    by (simp add: regranted_def)
  show "virtual (pages regranted 0xC0000000) = 0x1000"
    by (simp add: regranted_def)
  show "cached_addresses boot = []"
    by (simp add: cached_addresses_def boot_eq)
  show addresses: "cached_addresses regranted = [0x1000, 0x401000, 0x1000]"
    by (simp add: cached_addresses_def regranted_def concat_single_bucket
        DDE_PAGE_CACHE_SIZE_def DDE_PAGE_CACHE_SHIFT_def)
  show "\<not> distinct (cached_addresses regranted)"
    by (simp add: addresses)
qed

text \<open>
  C4. \<^verbatim>\<open>alloc_large_system_hash\<close> asks for a smaller order after each denial, down to a
  single page, and stops the program only if a single page is denied. The code does not
  do this. For 4 entries of 4096 bytes (16384 bytes, order 2) and a provider that grants
  single pages only, the loop asks twice for 16384 bytes, ends with \<^verbatim>\<open>log2qty\<close> 0 and no
  table, and the function stops the program; a request for one page at that point
  would have been granted.
\<close>

theorem alloc_large_system_hash_same_order:
  "alloc_loop gfp_2_6 (pool_kit [0x1000]) 16384 2 boot = Some (Inr (NULL, 0, twice_denied))
   \<and> alloc_large_system_hash gfp_2_6 (pool_kit [0x1000]) 4096 4 boot = Some (Inl Panic)
   \<and> dde_kit_large_malloc (pool_kit [0x1000]) (trace twice_denied) PAGE_SIZE = 0x1000"
proof (intro conjI)
  show loop: "alloc_loop gfp_2_6 (pool_kit [0x1000]) 16384 2 boot = Some (Inr (NULL, 0, twice_denied))"
    by (simp add: alloc_loop.simps order_loop_16384 twice_denied_def uu_get_free_pages_def
        gfp_2_6_def pool_kit_def pool_malloc_def PAGE_SIZE_eq boot_eq shl_def)
  show "alloc_large_system_hash gfp_2_6 (pool_kit [0x1000]) 4096 4 boot = Some (Inl Panic)"
    by (simp add: alloc_large_system_hash_def ilog2_4 shl_def loop)
  show "dde_kit_large_malloc (pool_kit [0x1000]) (trace twice_denied) PAGE_SIZE = 0x1000"
    by (simp add: twice_denied_def pool_kit_def pool_malloc_def)
qed




text \<open>
  C6, as stated: for every descriptor \<open>d\<close> in the cache with a page-aligned address and
  every offset below the page size, the lookup of the address plus the offset returns
  \<open>d\<close>. This fails when a descriptor added later has the same address: with the pages
  \<open>0x100\<close> and \<open>0x200\<close> both added for \<open>0x1000\<close>, the descriptor \<open>0x100\<close> is in the
  bucket of its address, the address is page-aligned, the offset 0 is below the page
  size, and the lookup returns \<open>0x200\<close>.
\<close>

theorem lookup_page_offset_counterexample:
  "page_cache_add_all (pool_kit []) [0x100, 0x200] (handed_in [(0x100, 0x1000), (0x200, 0x1000)])
     = Inr shared_address
   \<and> dde_linux26_page_cache shared_address ! unat (VIRT_TO_PAGEHASH (virtual (pages shared_address 0x100)))
     = [\<lparr>page = 0x200\<rparr>, \<lparr>page = 0x100\<rparr>]
   \<and> virtual (pages shared_address 0x100) AND PAGE_MASK = virtual (pages shared_address 0x100)
   \<and> (0 :: ulong) < PAGE_SIZE
   \<and> dde_linux26_page_lookup (virtual (pages shared_address 0x100) + 0) shared_address \<noteq> 0x100"
  apply (intro conjI)
      apply (rule shared_address_reached)
     apply (simp add: shared_address_def handed_in_def hash_0x1000 DDE_PAGE_CACHE_SIZE_def DDE_PAGE_CACHE_SHIFT_def)
    apply (simp add: shared_address_def handed_in_def PAGE_MASK_eq)
   apply (simp add: PAGE_SIZE_eq)
  apply (simp add: dde_linux26_page_lookup_def shared_address_def handed_in_def hash_0x1000 PAGE_MASK_eq DDE_PAGE_CACHE_SIZE_def DDE_PAGE_CACHE_SHIFT_def)
  done

text \<open>
  C6, amended: let \<open>d\<close> be a descriptor whose entry is in the bucket of its address, with
  no entry in front of it in that bucket for the same address (so whenever \<open>d\<close> is the
  only descriptor of its address). If the address is page-aligned, then for every offset
  below the page size the lookup of the address plus the offset returns \<open>d\<close>.
\<close>

theorem lookup_page_offset:
  assumes "dde_linux26_page_cache s ! unat (VIRT_TO_PAGEHASH (virtual (pages s d))) = front @ e # behind"
    and "page e = d"
    and "\<forall>x \<in> set front. virtual (pages s (page x)) \<noteq> virtual (pages s d)"
    and "virtual (pages s d) AND PAGE_MASK = virtual (pages s d)"
    and "off < PAGE_SIZE"
  shows "dde_linux26_page_lookup (virtual (pages s d) + off) s = d"
proof -
  let ?va = "virtual (pages s d)"
  have "dde_linux26_page_lookup (?va + off) s = lookup_scan (pages s) ?va (front @ e # behind)"
    using assms(1,4,5) by (simp add: dde_linux26_page_lookup_def page_offset_hash page_offset_masked)
  also have "\<dots> = lookup_scan (pages s) ?va (e # behind)"
    using assms(3) by (rule lookup_scan_append)
  also have "\<dots> = d"
    using assms(2) by simp
  finally show ?thesis .
qed

text \<open>
  Witness for the amended C6: the descriptor \<open>0x100\<close> of \<open>0x1000\<close> stands behind the
  descriptor of \<open>0x401000\<close> in bucket 1, and the lookup of \<open>0x1000 + 0x10\<close> returns it.
\<close>

theorem lookup_page_offset_witness:
  "page_cache_add_all (pool_kit []) [0x100, 0x200] (handed_in [(0x100, 0x1000), (0x200, 0x401000)])
     = Inr same_bucket
   \<and> dde_linux26_page_cache same_bucket ! unat (VIRT_TO_PAGEHASH (virtual (pages same_bucket 0x100)))
       = [\<lparr>page = 0x200\<rparr>] @ \<lparr>page = 0x100\<rparr> # []
   \<and> virtual (pages same_bucket 0x200) \<noteq> virtual (pages same_bucket 0x100)
   \<and> virtual (pages same_bucket 0x100) AND PAGE_MASK = virtual (pages same_bucket 0x100)
   \<and> (0x10 :: ulong) < PAGE_SIZE
   \<and> dde_linux26_page_lookup (0x1000 + 0x10) same_bucket = 0x100"
proof -
  have reach: "page_cache_add_all (pool_kit []) [0x100, 0x200] (handed_in [(0x100, 0x1000), (0x200, 0x401000)])
     = Inr same_bucket"
    by (simp add: same_bucket_def handed_in_def example_simps)
  have va: "virtual (pages same_bucket 0x100) = 0x1000"
    by (simp add: same_bucket_def handed_in_def)
  have bucket: "dde_linux26_page_cache same_bucket ! unat (VIRT_TO_PAGEHASH (virtual (pages same_bucket 0x100)))
       = [\<lparr>page = 0x200\<rparr>] @ \<lparr>page = 0x100\<rparr> # []"
    by (simp add: va hash_0x1000) (simp add: same_bucket_def DDE_PAGE_CACHE_SIZE_def DDE_PAGE_CACHE_SHIFT_def)
  have pg: "page \<lparr>page = 0x100\<rparr> = 0x100"
    by simp
  have front: "\<forall>x \<in> set [\<lparr>page = 0x200\<rparr>]. virtual (pages same_bucket (page x)) \<noteq> virtual (pages same_bucket 0x100)"
    by (simp add: same_bucket_def handed_in_def)
  have aligned: "virtual (pages same_bucket 0x100) AND PAGE_MASK = virtual (pages same_bucket 0x100)"
    by (simp add: va PAGE_MASK_eq)
  have off: "(0x10 :: ulong) < PAGE_SIZE"
    by (simp add: PAGE_SIZE_eq)
  from lookup_page_offset [OF bucket pg front aligned off]
  have "dde_linux26_page_lookup (0x1000 + 0x10) same_bucket = 0x100"
    by (simp only: va)
  with reach bucket front aligned off show ?thesis
    by simp
qed

text \<open>
  C7. For a class that passes the assertion, \<^verbatim>\<open>get_zeroed_page\<close> returns what
  \<^verbatim>\<open>__get_free_pages\<close> returns for order 0, and the one request it makes is for
  \<^verbatim>\<open>PAGE_SIZE\<close> bytes. If the address is not null, every byte of the page at that address
  is zero in the state returned, and the bytes outside the page are as before. If the
  provider denies, the null address is returned and the memory is as before: no byte
  was written.
\<close>

theorem get_zeroed_page_zero_fill:
  assumes "gfp_mask \<noteq> GFP_DMA G"
  shows "\<exists>p s1. get_zeroed_page G K gfp_mask s = Inr (p, s1)
      \<and> uu_get_free_pages G K gfp_mask 0 s = Inr (p, s1\<lparr>mem := mem s\<rparr>)
      \<and> requests (trace s1) = PAGE_SIZE # requests (trace s)
      \<and> (p \<noteq> NULL \<longrightarrow> (\<forall>off < PAGE_SIZE. mem s1 (p + off) = 0))
      \<and> (p \<noteq> NULL \<longrightarrow> (\<forall>a. \<not> a - p < PAGE_SIZE \<longrightarrow> mem s1 a = mem s a))
      \<and> (p = NULL \<longrightarrow> mem s1 = mem s)"
  using assms
  by (simp add: get_zeroed_page_def uu_get_free_pages_eq shl_0 memset_inside memset_outside)

text \<open>
  Witness for C7: in a memory where every byte is \<open>0xAA\<close>, the page granted at \<open>0x1000\<close>
  is returned zero from its first to its last byte; with a provider that denies, the
  result is \<open>NULL\<close> and the memory is unchanged.
\<close>

theorem get_zeroed_page_zero_fill_witness:
  "(0xD0 :: gfp_t) \<noteq> GFP_DMA gfp_2_6
   \<and> mem dirty 0x1010 = 0xAA
   \<and> (\<exists>s1. get_zeroed_page gfp_2_6 (pool_kit [0x1000]) 0xD0 dirty = Inr (0x1000, s1)
         \<and> requests (trace s1) = [4096] \<and> mem s1 0x1000 = 0 \<and> mem s1 0x1010 = 0 \<and> mem s1 0x1FFF = 0)
   \<and> (\<exists>s1. get_zeroed_page gfp_2_6 (pool_kit []) 0xD0 dirty = Inr (NULL, s1)
         \<and> mem s1 = mem dirty)"
proof -
  have gfp: "(0xD0 :: gfp_t) \<noteq> GFP_DMA gfp_2_6"
    by (simp add: gfp_2_6_def)
  from get_zeroed_page_zero_fill [OF gfp, of "pool_kit [0x1000]" dirty]
  obtain p s1 where 1: "get_zeroed_page gfp_2_6 (pool_kit [0x1000]) 0xD0 dirty = Inr (p, s1)"
    and 2: "uu_get_free_pages gfp_2_6 (pool_kit [0x1000]) 0xD0 0 dirty = Inr (p, s1\<lparr>mem := mem dirty\<rparr>)"
    and 3: "requests (trace s1) = PAGE_SIZE # requests (trace dirty)"
    and 4: "p \<noteq> NULL \<longrightarrow> (\<forall>off < PAGE_SIZE. mem s1 (p + off) = 0)"
    by blast
  from 2 have p: "p = 0x1000"
    by (simp add: uu_get_free_pages_eq shl_0 gfp_2_6_def pool_kit_def pool_malloc_def dirty_def boot_eq)
  from 4 p have z: "\<forall>off < PAGE_SIZE. mem s1 (0x1000 + off) = 0"
    by simp
  have "mem s1 (0x1000 + 0) = 0" "mem s1 (0x1000 + 0x10) = 0" "mem s1 (0x1000 + 0xFFF) = 0"
    using z [rule_format, of 0] z [rule_format, of "0x10"] z [rule_format, of "0xFFF"]
    by (simp_all add: PAGE_SIZE_eq)
  then have zero: "mem s1 0x1000 = 0 \<and> mem s1 0x1010 = 0 \<and> mem s1 0x1FFF = 0"
    by simp
  from get_zeroed_page_zero_fill [OF gfp, of "pool_kit []" dirty]
  obtain q t1 where 5: "get_zeroed_page gfp_2_6 (pool_kit []) 0xD0 dirty = Inr (q, t1)"
    and 6: "uu_get_free_pages gfp_2_6 (pool_kit []) 0xD0 0 dirty = Inr (q, t1\<lparr>mem := mem dirty\<rparr>)"
    and 7: "q = NULL \<longrightarrow> mem t1 = mem dirty"
    by blast
  from 6 have q: "q = NULL"
    by (simp add: uu_get_free_pages_eq shl_0 gfp_2_6_def pool_kit_def pool_malloc_def)
  have d: "mem dirty 0x1010 = 0xAA"
    by (simp add: dirty_def)
  from 3 have r: "requests (trace s1) = [4096]"
    by (simp add: PAGE_SIZE_eq dirty_def boot_eq)
  show ?thesis
    using gfp d 1 p zero r 5 q 7 by simp
qed

text \<open>
  C8, as stated: for every order, \<^verbatim>\<open>__get_free_pages\<close> and \<^verbatim>\<open>__alloc_pages\<close> request
  \<^verbatim>\<open>page_size << order\<close> bytes, that is \<open>2 ^ order\<close> pages. This fails from order 20 on.
  At order 32 the request is for 4096 bytes, one page: the count of the shift is taken
  modulo 32. At order 20 the request is for 0 bytes: the value wraps.
\<close>

theorem order_sizing_counterexample:
  "uu_get_free_pages gfp_2_6 (pool_kit [0x1000]) 0xD0 32 boot
     = Inr (0x1000, boot\<lparr>trace := [Large_malloc 0x1000 0x1000]\<rparr>)
   \<and> requests (trace (boot\<lparr>trace := [Large_malloc 0x1000 0x1000]\<rparr>)) = [0x1000]
   \<and> (0x1000 :: ulong) \<noteq> push_bit 32 PAGE_SIZE
   \<and> unat (0x1000 :: ulong) \<noteq> unat PAGE_SIZE * 2 ^ 32
   \<and> uu_get_free_pages gfp_2_6 (pool_kit [0x1000]) 0xD0 20 boot
     = Inr (NULL, boot\<lparr>trace := [Large_malloc 0 NULL]\<rparr>)
   \<and> requests (trace (boot\<lparr>trace := [Large_malloc 0 NULL]\<rparr>)) = [0]
   \<and> unat (0 :: ulong) \<noteq> unat PAGE_SIZE * 2 ^ 20"
proof (intro conjI)
  show "uu_get_free_pages gfp_2_6 (pool_kit [0x1000]) 0xD0 32 boot
     = Inr (0x1000, boot\<lparr>trace := [Large_malloc 0x1000 0x1000]\<rparr>)"
    by (simp add: example_simps)
  show "requests (trace (boot\<lparr>trace := [Large_malloc 0x1000 0x1000]\<rparr>)) = [0x1000]"
    by simp
  show "(0x1000 :: ulong) \<noteq> push_bit 32 PAGE_SIZE"
    by (simp add: page_shift_zero)
  show "unat (0x1000 :: ulong) \<noteq> unat PAGE_SIZE * 2 ^ 32"
    by (simp add: PAGE_SIZE_eq)
  show "uu_get_free_pages gfp_2_6 (pool_kit [0x1000]) 0xD0 20 boot
     = Inr (NULL, boot\<lparr>trace := [Large_malloc 0 NULL]\<rparr>)"
    by (simp add: example_simps)
  show "requests (trace (boot\<lparr>trace := [Large_malloc 0 NULL]\<rparr>)) = [0]"
    by simp
  show "unat (0 :: ulong) \<noteq> unat PAGE_SIZE * 2 ^ 20"
    by (simp add: PAGE_SIZE_eq)
qed

text \<open>
  C8, amended: for every order below 32 and every mask that passes the assertion,
  \<^verbatim>\<open>__get_free_pages\<close> returns and has made exactly one more request to the provider,
  for \<^verbatim>\<open>PAGE_SIZE << order\<close> bytes as a 32-bit value; whenever \<^verbatim>\<open>__alloc_pages\<close> returns, it
  has made exactly one more request, of that size; and \<^verbatim>\<open>__alloc_pages\<close> does return
  when its two calls of \<^verbatim>\<open>kmalloc\<close> succeed. The size is \<open>4096 * 2 ^ order\<close> modulo
  \<open>2 ^ 32\<close>: \<open>2 ^ order\<close> pages for an order below 20, and 0 for the orders 20 to 31.
\<close>

theorem order_sizing:
  assumes "gfp_mask \<noteq> GFP_DMA G" and "order < 32"
  shows "(\<exists>p s1. uu_get_free_pages G K gfp_mask order s = Inr (p, s1)
            \<and> requests (trace s1) = push_bit (unat order) PAGE_SIZE # requests (trace s))
       \<and> (\<forall>ret s1. uu_alloc_pages G K gfp_mask order s = Inr (ret, s1) \<longrightarrow>
            requests (trace s1) = push_bit (unat order) PAGE_SIZE # requests (trace s))
       \<and> (\<forall>ret va e.
            ret = kmalloc K (trace s)
            \<and> va = dde_kit_large_malloc K (Kmalloc ret # trace s) (push_bit (unat order) PAGE_SIZE)
            \<and> e = kmalloc K (Large_malloc (push_bit (unat order) PAGE_SIZE) va # Kmalloc ret # trace s)
            \<and> ret \<noteq> NULL \<and> e \<noteq> NULL \<longrightarrow>
            (\<exists>s1. uu_alloc_pages G K gfp_mask order s = Inr (ret, s1)
               \<and> requests (trace s1) = push_bit (unat order) PAGE_SIZE # requests (trace s)))
       \<and> unat (push_bit (unat order) PAGE_SIZE :: ulong) = (4096 * 2 ^ unat order) mod 2 ^ 32
       \<and> (order < 20 \<longrightarrow> unat (push_bit (unat order) PAGE_SIZE :: ulong) = 4096 * 2 ^ unat order)
       \<and> (20 \<le> order \<longrightarrow> push_bit (unat order) PAGE_SIZE = (0 :: ulong))"
proof (intro conjI allI impI)
  note sz = shl_less [OF assms(2), of PAGE_SIZE]
  show "\<exists>p s1. uu_get_free_pages G K gfp_mask order s = Inr (p, s1)
            \<and> requests (trace s1) = push_bit (unat order) PAGE_SIZE # requests (trace s)"
    using assms(1) by (simp add: uu_get_free_pages_eq sz)
  show "unat (push_bit (unat order) PAGE_SIZE :: ulong) = (4096 * 2 ^ unat order) mod 2 ^ 32"
    by (rule unat_page_shift_mod)
  show "unat (push_bit (unat order) PAGE_SIZE :: ulong) = 4096 * 2 ^ unat order" if "order < 20"
    using that by (intro unat_page_shift) (simp add: word_less_nat_alt)
  show "push_bit (unat order) PAGE_SIZE = (0 :: ulong)" if "20 \<le> order"
    using that by (intro page_shift_zero) (simp add: word_le_nat_alt)
  show "requests (trace s1) = push_bit (unat order) PAGE_SIZE # requests (trace s)"
    if "uu_alloc_pages G K gfp_mask order s = Inr (ret, s1)" for ret s1
    using uu_alloc_pages_Inr(4) [OF that] by (simp add: sz)
  show "\<exists>s1. uu_alloc_pages G K gfp_mask order s = Inr (ret, s1)
               \<and> requests (trace s1) = push_bit (unat order) PAGE_SIZE # requests (trace s)"
    if "ret = kmalloc K (trace s)
            \<and> va = dde_kit_large_malloc K (Kmalloc ret # trace s) (push_bit (unat order) PAGE_SIZE)
            \<and> e = kmalloc K (Large_malloc (push_bit (unat order) PAGE_SIZE) va # Kmalloc ret # trace s)
            \<and> ret \<noteq> NULL \<and> e \<noteq> NULL" for ret va e
    using that assms(1) uu_alloc_pages_returns [of gfp_mask G ret K s va order e]
    by (simp add: sz) blast
qed

text \<open>
  Witness for the amended C8: at start-up, with pages of 4096 bytes, order 0 requests
  4096 bytes and order 3 requests 32768 bytes, from \<^verbatim>\<open>__get_free_pages\<close> and from
  \<^verbatim>\<open>__alloc_pages\<close>.
\<close>

theorem order_sizing_witness:
  "(0xD0 :: gfp_t) \<noteq> GFP_DMA gfp_2_6
   \<and> (0 :: uint) < 32 \<and> (3 :: uint) < 32
   \<and> (\<exists>p s1. uu_get_free_pages gfp_2_6 (pool_kit [0x1000]) 0xD0 0 boot = Inr (p, s1)
         \<and> requests (trace s1) = [4096])
   \<and> (\<exists>p s1. uu_get_free_pages gfp_2_6 (pool_kit [0x1000]) 0xD0 3 boot = Inr (p, s1)
         \<and> requests (trace s1) = [32768])
   \<and> (\<exists>s1. uu_alloc_pages gfp_2_6 (pool_kit [0x1000]) 0xD0 0 boot = Inr (0xC0000000, s1)
         \<and> requests (trace s1) = [4096])
   \<and> (\<exists>s1. uu_alloc_pages gfp_2_6 (pool_kit [0x1000]) 0xD0 3 boot = Inr (0xC0000000, s1)
         \<and> requests (trace s1) = [32768])"
proof -
  have gfp: "(0xD0 :: gfp_t) \<noteq> GFP_DMA gfp_2_6"
    by (simp add: gfp_2_6_def)
  have o0: "(0 :: uint) < 32" and o3: "(3 :: uint) < 32"
    by simp_all
  have tr: "requests (trace boot) = []"
    by (simp add: boot_eq)
  have k1: "kmalloc (pool_kit [0x1000]) (trace boot) = 0xC0000000"
    by (simp add: pool_kit_def bump_kmalloc_def boot_eq)
  have k2: "kmalloc (pool_kit [0x1000]) (Large_malloc sz va # Kmalloc 0xC0000000 # trace boot) \<noteq> NULL" for sz va
    by (simp add: pool_kit_def bump_kmalloc_def boot_eq)
  from order_sizing [OF gfp o0, of "pool_kit [0x1000]" boot]
    order_sizing [OF gfp o3, of "pool_kit [0x1000]" boot] gfp k1 k2
  show ?thesis
    by (simp add: tr PAGE_SIZE_eq)
qed

text \<open>
  C9. If no entry of the cache has the page-aligned address of \<open>p\<close>, then
  \<^verbatim>\<open>dde_linux26_page_cache_remove\<close> returns the state unchanged (it has no failing path),
  and after \<open>p\<close> is added and removed, a second removal changes nothing. When \<open>p\<close> is
  page-aligned, the removal after the addition gives back the table as it was. In every
  state, the lookup of an address with another page-aligned key gives the same result
  after the removal as before; the lookup of any address gives the same result unless
  it gave the page of the node that is unlinked; and the removal either changes nothing
  or unlinks one node, the first of the bucket, whose address is the key.
\<close>

theorem remove_absent_no_op:
  "((\<forall>i < DDE_PAGE_CACHE_SIZE. \<forall>e \<in> set (dde_linux26_page_cache s ! i).
        virtual (pages s (page e)) \<noteq> virtual (pages s p) AND PAGE_MASK) \<longrightarrow>
      dde_linux26_page_cache_remove p s = s
      \<and> (\<forall>s1. dde_linux26_page_cache_add K p s = Inr s1 \<longrightarrow>
            dde_linux26_page_cache_remove p (dde_linux26_page_cache_remove p s1)
              = dde_linux26_page_cache_remove p s1))
   \<and> (\<forall>s1. length (dde_linux26_page_cache s) = DDE_PAGE_CACHE_SIZE
          \<and> virtual (pages s p) AND PAGE_MASK = virtual (pages s p)
          \<and> dde_linux26_page_cache_add K p s = Inr s1 \<longrightarrow>
          dde_linux26_page_cache (dde_linux26_page_cache_remove p s1) = dde_linux26_page_cache s)
   \<and> (\<forall>va. va AND PAGE_MASK \<noteq> virtual (pages s p) AND PAGE_MASK \<longrightarrow>
         dde_linux26_page_lookup va (dde_linux26_page_cache_remove p s) = dde_linux26_page_lookup va s)
   \<and> (\<forall>va. dde_linux26_page_lookup va (dde_linux26_page_cache_remove p s) = dde_linux26_page_lookup va s
         \<or> (\<exists>e rest. dde_linux26_page_cache s ! unat (VIRT_TO_PAGEHASH (virtual (pages s p))) = e # rest
               \<and> virtual (pages s (page e)) = virtual (pages s p) AND PAGE_MASK
               \<and> dde_linux26_page_lookup va s = page e))
   \<and> (dde_linux26_page_cache_remove p s = s \<or>
       (\<exists>e rest. dde_linux26_page_cache s ! unat (VIRT_TO_PAGEHASH (virtual (pages s p))) = e # rest
          \<and> virtual (pages s (page e)) = virtual (pages s p) AND PAGE_MASK
          \<and> dde_linux26_page_cache_remove p s =
              s\<lparr>dde_linux26_page_cache :=
                  (dde_linux26_page_cache s)[unat (VIRT_TO_PAGEHASH (virtual (pages s p))) := rest]\<rparr>))"
proof (intro conjI impI allI)
  assume none: "\<forall>i < DDE_PAGE_CACHE_SIZE. \<forall>e \<in> set (dde_linux26_page_cache s ! i).
        virtual (pages s (page e)) \<noteq> virtual (pages s p) AND PAGE_MASK"
  then show "dde_linux26_page_cache_remove p s = s"
    by (rule dde_linux26_page_cache_remove_absent)
  fix s1
  assume "dde_linux26_page_cache_add K p s = Inr s1"
  with none show "dde_linux26_page_cache_remove p (dde_linux26_page_cache_remove p s1)
              = dde_linux26_page_cache_remove p s1"
    by (rule second_remove_no_op)
next
  fix s1
  assume "length (dde_linux26_page_cache s) = DDE_PAGE_CACHE_SIZE
          \<and> virtual (pages s p) AND PAGE_MASK = virtual (pages s p)
          \<and> dde_linux26_page_cache_add K p s = Inr s1"
  then show "dde_linux26_page_cache (dde_linux26_page_cache_remove p s1) = dde_linux26_page_cache s"
    by (intro add_remove_restores [where K = K]) simp_all
next
  fix va
  assume "va AND PAGE_MASK \<noteq> virtual (pages s p) AND PAGE_MASK"
  then show "dde_linux26_page_lookup va (dde_linux26_page_cache_remove p s) = dde_linux26_page_lookup va s"
    by (rule lookup_remove_other)
next
  fix va
  show "dde_linux26_page_lookup va (dde_linux26_page_cache_remove p s) = dde_linux26_page_lookup va s
         \<or> (\<exists>e rest. dde_linux26_page_cache s ! unat (VIRT_TO_PAGEHASH (virtual (pages s p))) = e # rest
               \<and> virtual (pages s (page e)) = virtual (pages s p) AND PAGE_MASK
               \<and> dde_linux26_page_lookup va s = page e)"
    by (rule lookup_remove_cases)
next
  show "dde_linux26_page_cache_remove p s = s \<or>
       (\<exists>e rest. dde_linux26_page_cache s ! unat (VIRT_TO_PAGEHASH (virtual (pages s p))) = e # rest
          \<and> virtual (pages s (page e)) = virtual (pages s p) AND PAGE_MASK
          \<and> dde_linux26_page_cache_remove p s =
              s\<lparr>dde_linux26_page_cache :=
                  (dde_linux26_page_cache s)[unat (VIRT_TO_PAGEHASH (virtual (pages s p))) := rest]\<rparr>)"
    by (rule dde_linux26_page_cache_remove_cases)
qed

text \<open>
  Witness for C9: the cache holds the page \<open>0x200\<close> for \<open>0x2000\<close> and nothing for
  \<open>0x1000\<close>. Removing the page \<open>0x100\<close> of \<open>0x1000\<close> changes nothing; after it is added
  and removed the table is as before, the second removal changes nothing, and the
  lookup of \<open>0x2000\<close> still returns \<open>0x200\<close>.
\<close>

theorem remove_absent_no_op_witness:
  "dde_linux26_page_cache_add (pool_kit []) 0x200 (handed_in [(0x100, 0x1000), (0x200, 0x2000)]) = Inr one_entry
   \<and> dde_linux26_page_lookup 0x1000 one_entry = NULL
   \<and> dde_linux26_page_cache_remove 0x100 one_entry = one_entry
   \<and> dde_linux26_page_cache_add (pool_kit []) 0x100 one_entry = Inr one_added
   \<and> dde_linux26_page_cache (dde_linux26_page_cache_remove 0x100 one_added)
       = dde_linux26_page_cache one_entry
   \<and> dde_linux26_page_cache_remove 0x100 (dde_linux26_page_cache_remove 0x100 one_added)
       = dde_linux26_page_cache_remove 0x100 one_added
   \<and> dde_linux26_page_lookup 0x2000 (dde_linux26_page_cache_remove 0x100 one_added) = 0x200"
proof -
  have len: "length (dde_linux26_page_cache one_entry) = DDE_PAGE_CACHE_SIZE"
    by (simp add: one_entry_def)
  have aligned: "virtual (pages one_entry 0x100) AND PAGE_MASK = virtual (pages one_entry 0x100)"
    by (simp add: one_entry_def handed_in_def PAGE_MASK_eq)
  have reach: "dde_linux26_page_cache_add (pool_kit []) 0x200 (handed_in [(0x100, 0x1000), (0x200, 0x2000)]) = Inr one_entry"
    by (simp add: one_entry_def handed_in_def example_simps hash_0x2000)
  have absent: "dde_linux26_page_lookup 0x1000 one_entry = NULL"
    by (simp add: one_entry_def handed_in_def example_simps)
  have none: "\<forall>i < DDE_PAGE_CACHE_SIZE. \<forall>e \<in> set (dde_linux26_page_cache one_entry ! i).
        virtual (pages one_entry (page e)) \<noteq> virtual (pages one_entry 0x100) AND PAGE_MASK"
    by (auto simp: one_entry_def handed_in_def PAGE_MASK_eq nth_list_update
        DDE_PAGE_CACHE_SIZE_def DDE_PAGE_CACHE_SHIFT_def split: if_splits)
  have add: "dde_linux26_page_cache_add (pool_kit []) 0x100 one_entry = Inr one_added"
    by (simp add: one_added_def one_entry_def handed_in_def example_simps)
  have other: "0x2000 AND PAGE_MASK \<noteq> virtual (pages one_added 0x100) AND PAGE_MASK"
    by (simp add: one_added_def one_entry_def handed_in_def PAGE_MASK_eq)
  have found: "dde_linux26_page_lookup 0x2000 one_added = 0x200"
    by (simp add: one_added_def one_entry_def handed_in_def example_simps hash_0x2000)
  from remove_absent_no_op [of one_entry "0x100" "pool_kit []"] none add len aligned
  have "dde_linux26_page_cache_remove 0x100 one_entry = one_entry"
    and "dde_linux26_page_cache_remove 0x100 (dde_linux26_page_cache_remove 0x100 one_added)
       = dde_linux26_page_cache_remove 0x100 one_added"
    and "dde_linux26_page_cache (dde_linux26_page_cache_remove 0x100 one_added)
       = dde_linux26_page_cache one_entry"
    by blast+
  moreover from remove_absent_no_op [of one_added "0x100" "pool_kit []"] other found
  have "dde_linux26_page_lookup 0x2000 (dde_linux26_page_cache_remove 0x100 one_added) = 0x200"
    by simp
  ultimately show ?thesis
    using reach absent add by simp
qed

text \<open>
  C10. In a cache of \<^verbatim>\<open>DDE_PAGE_CACHE_SIZE\<close> buckets: an added entry becomes the first node
  of the bucket of its address; the lookup returns the page of the first node of the
  bucket whose address is the masked address; so after any pages are added in a row,
  the lookup of an address returns the last added of the pages with that page-aligned
  address, and what it returned before if there is none.
\<close>

theorem lookup_most_recent:
  assumes len: "length (dde_linux26_page_cache s) = DDE_PAGE_CACHE_SIZE"
  shows "(\<forall>p s1. dde_linux26_page_cache_add K p s = Inr s1 \<longrightarrow>
            dde_linux26_page_cache s1 ! unat (VIRT_TO_PAGEHASH (virtual (pages s p)))
              = \<lparr>page = p\<rparr> # dde_linux26_page_cache s ! unat (VIRT_TO_PAGEHASH (virtual (pages s p))))
       \<and> (\<forall>va front e behind.
            dde_linux26_page_cache s ! unat (VIRT_TO_PAGEHASH va) = front @ e # behind
            \<and> (\<forall>x \<in> set front. virtual (pages s (page x)) \<noteq> va AND PAGE_MASK)
            \<and> virtual (pages s (page e)) = va AND PAGE_MASK \<longrightarrow>
            dde_linux26_page_lookup va s = page e)
       \<and> (\<forall>ps s' va. page_cache_add_all K ps s = Inr s' \<longrightarrow>
            dde_linux26_page_lookup va s' =
              (case find (\<lambda>p. virtual (pages s p) = va AND PAGE_MASK) (rev ps) of
                 None \<Rightarrow> dde_linux26_page_lookup va s
               | Some p \<Rightarrow> p))"
proof (intro conjI allI impI)
  fix p s1
  assume add: "dde_linux26_page_cache_add K p s = Inr s1"
  have "unat (VIRT_TO_PAGEHASH (virtual (pages s p))) < length (dde_linux26_page_cache s)"
    using len VIRT_TO_PAGEHASH_less by simp
  with dde_linux26_page_cache_add_Inr(4) [OF add]
  show "dde_linux26_page_cache s1 ! unat (VIRT_TO_PAGEHASH (virtual (pages s p)))
      = \<lparr>page = p\<rparr> # dde_linux26_page_cache s ! unat (VIRT_TO_PAGEHASH (virtual (pages s p)))"
    by simp
next
  fix va front e behind
  assume a: "dde_linux26_page_cache s ! unat (VIRT_TO_PAGEHASH va) = front @ e # behind
            \<and> (\<forall>x \<in> set front. virtual (pages s (page x)) \<noteq> va AND PAGE_MASK)
            \<and> virtual (pages s (page e)) = va AND PAGE_MASK"
  then have "lookup_scan (pages s) (va AND PAGE_MASK) (front @ e # behind)
      = lookup_scan (pages s) (va AND PAGE_MASK) (e # behind)"
    by (intro lookup_scan_append) simp
  with a show "dde_linux26_page_lookup va s = page e"
    by (simp add: dde_linux26_page_lookup_def)
next
  fix ps s' va
  assume "page_cache_add_all K ps s = Inr s'"
  with len show "dde_linux26_page_lookup va s' =
              (case find (\<lambda>p. virtual (pages s p) = va AND PAGE_MASK) (rev ps) of
                 None \<Rightarrow> dde_linux26_page_lookup va s
               | Some p \<Rightarrow> p)"
    by (rule lookup_add_all)
qed

text \<open>
  Witness for C10: the pages \<open>0x100\<close> and \<open>0x200\<close>, both for \<open>0x1000\<close>, are added in this
  order; the lookup of \<open>0x1000\<close>, and of \<open>0x1234\<close> in the same page, returns \<open>0x200\<close>.
\<close>

theorem lookup_most_recent_witness:
  "length (dde_linux26_page_cache (handed_in [(0x100, 0x1000), (0x200, 0x1000)])) = DDE_PAGE_CACHE_SIZE
   \<and> page_cache_add_all (pool_kit []) [0x100, 0x200] (handed_in [(0x100, 0x1000), (0x200, 0x1000)])
       = Inr shared_address
   \<and> virtual (pages shared_address 0x100) = 0x1000
   \<and> virtual (pages shared_address 0x200) = 0x1000
   \<and> dde_linux26_page_lookup 0x1000 shared_address = 0x200
   \<and> dde_linux26_page_lookup 0x1234 shared_address = 0x200"
proof -
  let ?s = "handed_in [(0x100, 0x1000), (0x200, 0x1000)]"
  have len: "length (dde_linux26_page_cache ?s) = DDE_PAGE_CACHE_SIZE"
    by (simp add: handed_in_def boot_eq)
  have empty: "dde_linux26_page_lookup va ?s = NULL" for va
    by (simp add: handed_in_def boot_eq dde_linux26_page_lookup_def VIRT_TO_PAGEHASH_less)
  from lookup_most_recent [OF len, of "pool_kit []"] shared_address_reached
  have "dde_linux26_page_lookup va shared_address =
      (case find (\<lambda>p. virtual (pages ?s p) = va AND PAGE_MASK) (rev [0x100, 0x200]) of
         None \<Rightarrow> dde_linux26_page_lookup va ?s
       | Some p \<Rightarrow> p)" for va
    by blast
  then have "dde_linux26_page_lookup 0x1000 shared_address = 0x200"
    and "dde_linux26_page_lookup 0x1234 shared_address = 0x200"
    by (simp_all add: handed_in_def PAGE_MASK_eq)
  with len shared_address_reached show ?thesis
    by (simp add: shared_address_def handed_in_def)
qed

end
